theory Spec2Isabelle
  imports Complex_Main
begin

section \<open>JavaScript numbers\<close>

text \<open>
  The fields of \<^verbatim>\<open>ImageDimensions\<close> and \<^verbatim>\<open>ResizeOptions\<close> and the arguments of the
  handlers in \<^verbatim>\<open>src/App.tsx\<close> have the TypeScript type \<^verbatim>\<open>number\<close>, an IEEE-754
  double. A number is modelled as a finite value (the real number the double stands
  for), one of the two infinities, or NaN. Every arithmetic operation computes the
  exact real result and rounds it to the nearest double, a tie going to the even
  significand (\<open>fl\<close>); a result of magnitude \<open>2 ^ 1024\<close> or more after rounding is an
  infinity. Division by zero, the propagation of NaN and of the infinities, comparisons
  with NaN and truthiness are as in ECMAScript. The sign of zero is not modelled.
\<close>

datatype jsnum = Num real | PosInf | NegInf | NaN

text \<open>The integer part of the binary logarithm of a positive natural number.\<close>

fun ilog2 :: "nat \<Rightarrow> nat" where
  "ilog2 n = (if n < 2 then 0 else Suc (ilog2 (n div 2)))"

declare ilog2.simps [simp del]

text \<open>
  The binary exponent of a positive real \<open>x\<close>: the integer \<open>e\<close> with
  \<open>2 ^ e \<le> x < 2 ^ (e + 1)\<close>.
\<close>

definition expo :: "real \<Rightarrow> int" where
  "expo x = (if 1 \<le> x then int (ilog2 (nat \<lfloor>x\<rfloor>))
             else - int (Suc (ilog2 (nat (\<lceil>1 / x\<rceil> - 1)))))"

text \<open>Rounding to the nearest integer, a tie going to the even one.\<close>

definition rne :: "real \<Rightarrow> int" where
  "rne m = (let f = \<lfloor>m\<rfloor>; d = m - of_int f in
            if d < 1 / 2 then f else if 1 / 2 < d then f + 1
            else if even f then f else f + 1)"

definition overflow_threshold :: real where
  "overflow_threshold = 2 ^ 1024"

text \<open>
  Rounding a real number to a double: 53 significant bits at the exponent of the
  number, the exponent being at least \<open>- 1022\<close> (below that the spacing of the
  subnormal numbers, \<open>2 ^ (- 1074)\<close>, applies).
\<close>

definition fl :: "real \<Rightarrow> jsnum" where
  "fl x = (if x = 0 then Num 0 else
     let e = max (expo \<bar>x\<bar>) (- 1022);
         q = 2 powi (e - 52);
         y = of_int (rne (x / q)) * q
     in if overflow_threshold \<le> \<bar>y\<bar> then (if 0 < x then PosInf else NegInf) else Num y)"

text \<open>A decimal literal of the source denotes the double nearest to it.\<close>

definition js_lit :: "real \<Rightarrow> jsnum" where
  "js_lit x = fl x"

text \<open>\<^verbatim>\<open>a < b\<close>: false as soon as one operand is NaN.\<close>

fun js_lt :: "jsnum \<Rightarrow> jsnum \<Rightarrow> bool" where
  "js_lt NaN _ = False"
| "js_lt _ NaN = False"
| "js_lt (Num a) (Num b) = (a < b)"
| "js_lt (Num _) PosInf = True"
| "js_lt (Num _) NegInf = False"
| "js_lt PosInf _ = False"
| "js_lt NegInf NegInf = False"
| "js_lt NegInf _ = True"

text \<open>\<^verbatim>\<open>a > b\<close>.\<close>

definition js_gt :: "jsnum \<Rightarrow> jsnum \<Rightarrow> bool" where
  "js_gt a b = js_lt b a"

text \<open>\<^verbatim>\<open>a * b\<close>: the rounded product; infinity times zero is NaN.\<close>

fun js_mul :: "jsnum \<Rightarrow> jsnum \<Rightarrow> jsnum" where
  "js_mul NaN _ = NaN"
| "js_mul _ NaN = NaN"
| "js_mul (Num a) (Num b) = fl (a * b)"
| "js_mul (Num a) PosInf = (if a = 0 then NaN else if 0 < a then PosInf else NegInf)"
| "js_mul (Num a) NegInf = (if a = 0 then NaN else if 0 < a then NegInf else PosInf)"
| "js_mul PosInf (Num b) = (if b = 0 then NaN else if 0 < b then PosInf else NegInf)"
| "js_mul NegInf (Num b) = (if b = 0 then NaN else if 0 < b then NegInf else PosInf)"
| "js_mul PosInf PosInf = PosInf"
| "js_mul PosInf NegInf = NegInf"
| "js_mul NegInf PosInf = NegInf"
| "js_mul NegInf NegInf = PosInf"

text \<open>
  \<^verbatim>\<open>a / b\<close>: the rounded quotient; zero by zero is NaN, a nonzero finite value by zero
  is an infinity of the sign of the numerator (the zero divisor is taken as \<^verbatim>\<open>+0\<close>),
  infinity by infinity is NaN.
\<close>

fun js_div :: "jsnum \<Rightarrow> jsnum \<Rightarrow> jsnum" where
  "js_div NaN _ = NaN"
| "js_div _ NaN = NaN"
| "js_div (Num a) (Num b) =
     (if b \<noteq> 0 then fl (a / b)
      else if a = 0 then NaN else if 0 < a then PosInf else NegInf)"
| "js_div (Num _) PosInf = Num 0"
| "js_div (Num _) NegInf = Num 0"
| "js_div PosInf (Num b) = (if 0 \<le> b then PosInf else NegInf)"
| "js_div NegInf (Num b) = (if 0 \<le> b then NegInf else PosInf)"
| "js_div _ _ = NaN"

text \<open>\<^verbatim>\<open>a - b\<close>: the rounded difference; infinity minus the same infinity is NaN.\<close>

fun js_sub :: "jsnum \<Rightarrow> jsnum \<Rightarrow> jsnum" where
  "js_sub NaN _ = NaN"
| "js_sub _ NaN = NaN"
| "js_sub (Num a) (Num b) = fl (a - b)"
| "js_sub (Num _) PosInf = NegInf"
| "js_sub (Num _) NegInf = PosInf"
| "js_sub PosInf PosInf = NaN"
| "js_sub PosInf _ = PosInf"
| "js_sub NegInf NegInf = NaN"
| "js_sub NegInf _ = NegInf"

text \<open>
  \<^verbatim>\<open>Math.round(x)\<close>: the integer nearest to \<open>x\<close>, a tie going up, that is
  \<open>\<lfloor>x + 1/2\<rfloor>\<close>, without a rounding error (from \<open>2 ^ 52\<close> on every double is an
  integer); NaN and the infinities are returned as they are.
\<close>

fun js_round :: "jsnum \<Rightarrow> jsnum" where
  "js_round (Num x) = Num (of_int \<lfloor>x + 1 / 2\<rfloor>)"
| "js_round x = x"

text \<open>\<^verbatim>\<open>Math.max(a, b)\<close>: NaN as soon as one argument is NaN.\<close>

fun js_max :: "jsnum \<Rightarrow> jsnum \<Rightarrow> jsnum" where
  "js_max NaN _ = NaN"
| "js_max _ NaN = NaN"
| "js_max a b = (if js_lt a b then b else a)"

text \<open>Truthiness of a number: every number but zero and NaN.\<close>

fun js_truthy :: "jsnum \<Rightarrow> bool" where
  "js_truthy (Num x) = (x \<noteq> 0)"
| "js_truthy NaN = False"
| "js_truthy _ = True"

text \<open>\<^verbatim>\<open>a || b\<close> on numbers.\<close>

definition js_or :: "jsnum \<Rightarrow> jsnum \<Rightarrow> jsnum" where
  "js_or a b = (if js_truthy a then a else b)"

text \<open>A number is finite when it is neither NaN nor an infinity (\<^verbatim>\<open>Number.isFinite\<close>).\<close>

fun js_finite :: "jsnum \<Rightarrow> bool" where
  "js_finite (Num _) = True"
| "js_finite _ = False"

section \<open>Data model (\<^verbatim>\<open>src/types.ts\<close>)\<close>

record ImageDimensions =
  width :: jsnum
  height :: jsnum

datatype ResizeMode = pixels | percentage_mode

datatype ImageFormat = image_jpeg | image_png | image_webp

record ResizeOptions =
  width :: jsnum
  height :: jsnum
  percentage :: jsnum
  mode :: ResizeMode
  quality :: jsnum
  format :: ImageFormat
  maintainAspectRatio :: bool

section \<open>Dimension handlers (\<^verbatim>\<open>src/App.tsx\<close>, lines 73 to 104)\<close>

text \<open>The first argument of \<^verbatim>\<open>updateDimensions\<close>: \<^verbatim>\<open>'width' | 'height'\<close>.\<close>

datatype DimKey = key_width | key_height

text \<open>
  \<^verbatim>\<open>updateDimensions\<close> reads \<^verbatim>\<open>options\<close> and \<^verbatim>\<open>originalDims\<close> of the current render
  and either returns without a state update (\<open>None\<close>) or calls \<^verbatim>\<open>setOptions\<close> with an
  updater over the previous state (\<open>Some\<close> of that updater).
\<close>

definition updateDimensions ::
  "ImageDimensions \<Rightarrow> ResizeOptions \<Rightarrow> DimKey \<Rightarrow> jsnum \<Rightarrow> (ResizeOptions \<Rightarrow> ResizeOptions) option"
where
  "updateDimensions originalDims options key val =
     (if js_lt val (Num 0) then None
      else
        let (newW, newH) =
          (case key of
             key_width \<Rightarrow>
               (val,
                if maintainAspectRatio options \<and> js_gt (ImageDimensions.width originalDims) (Num 0)
                then js_round (js_mul val
                       (js_div (ImageDimensions.height originalDims) (ImageDimensions.width originalDims)))
                else ResizeOptions.height options)
           | key_height \<Rightarrow>
               (if maintainAspectRatio options \<and> js_gt (ImageDimensions.height originalDims) (Num 0)
                then js_round (js_mul val
                       (js_div (ImageDimensions.width originalDims) (ImageDimensions.height originalDims)))
                else ResizeOptions.width options,
                val))
        in Some (\<lambda>prev. prev\<lparr>ResizeOptions.width := newW, ResizeOptions.height := newH,
                   percentage :=
                     js_or (js_round (js_mul (js_div newW (ImageDimensions.width originalDims)) (Num 100)))
                       (Num 0)\<rparr>))"

text \<open>
  \<^verbatim>\<open>updatePercentage\<close> clamps its argument with two successive tests and always calls
  \<^verbatim>\<open>setOptions\<close>; it does not read \<^verbatim>\<open>options\<close>.
\<close>

definition updatePercentage :: "ImageDimensions \<Rightarrow> jsnum \<Rightarrow> (ResizeOptions \<Rightarrow> ResizeOptions)" where
  "updatePercentage originalDims val0 =
     (let val1 = (if js_lt val0 (Num 1) then Num 1 else val0);
          val = (if js_gt val1 (Num 500) then Num 500 else val1);
          newW = js_round (js_mul (ImageDimensions.width originalDims) (js_div val (Num 100)));
          newH = js_round (js_mul (ImageDimensions.height originalDims) (js_div val (Num 100)))
      in (\<lambda>prev. prev\<lparr>percentage := val, ResizeOptions.width := newW, ResizeOptions.height := newH\<rparr>))"

text \<open>
  The handlers run in an event of a render whose \<^verbatim>\<open>options\<close> is the current state, so the
  updater is applied to that same value. \<open>editDimensions\<close> and \<open>editPercentage\<close> are the
  options after the event.
\<close>

definition editDimensions ::
  "ImageDimensions \<Rightarrow> ResizeOptions \<Rightarrow> DimKey \<Rightarrow> jsnum \<Rightarrow> ResizeOptions"
where
  "editDimensions originalDims options key val =
     (case updateDimensions originalDims options key val of
        None \<Rightarrow> options
      | Some upd \<Rightarrow> upd options)"

definition editPercentage :: "ImageDimensions \<Rightarrow> ResizeOptions \<Rightarrow> jsnum \<Rightarrow> ResizeOptions" where
  "editPercentage originalDims options val = updatePercentage originalDims val options"

section \<open>Savings estimate (\<^verbatim>\<open>src/App.tsx\<close>, lines 151 to 155)\<close>

text \<open>
  Of the browser's \<^verbatim>\<open>File\<close> object the estimate reads only \<^verbatim>\<open>size\<close>, a byte count.
  The state \<^verbatim>\<open>file\<close> is \<^verbatim>\<open>File | null\<close> and \<^verbatim>\<open>resizedSrc\<close> is \<^verbatim>\<open>string | null\<close>.
\<close>

record File =
  file_size :: nat

text \<open>\<^verbatim>\<open>file?.size || 0\<close>: \<^verbatim>\<open>undefined || 0\<close> is \<^verbatim>\<open>0\<close> when there is no file.\<close>

definition originalSize :: "File option \<Rightarrow> jsnum" where
  "originalSize file =
     (case file of
        None \<Rightarrow> Num 0
      | Some f \<Rightarrow> js_or (Num (of_nat (file_size f))) (Num 0))"

text \<open>
  \<^verbatim>\<open>resizedSrc ? Math.round((resizedSrc.length - 22) * 0.75) : originalSize\<close>: the test is
  the truthiness of a string, false for \<^verbatim>\<open>null\<close> and for the empty string.
\<close>

definition newSizeEstimate :: "File option \<Rightarrow> string option \<Rightarrow> jsnum" where
  "newSizeEstimate file resizedSrc =
     (case resizedSrc of
        None \<Rightarrow> originalSize file
      | Some s \<Rightarrow>
          if s \<noteq> []
          then js_round (js_mul (js_sub (Num (of_nat (length s))) (Num 22)) (js_lit (75 / 100)))
          else originalSize file)"

definition savedBytes :: "File option \<Rightarrow> string option \<Rightarrow> jsnum" where
  "savedBytes file resizedSrc =
     js_max (Num 0) (js_sub (originalSize file) (newSizeEstimate file resizedSrc))"

definition savedCO2 :: "File option \<Rightarrow> string option \<Rightarrow> jsnum" where
  "savedCO2 file resizedSrc =
     js_mul (js_div (savedBytes file resizedSrc) (js_mul (Num 1024) (Num 1024)))
       (js_lit (35 / 100))"

definition sizePercent :: "File option \<Rightarrow> string option \<Rightarrow> jsnum" where
  "sizePercent file resizedSrc =
     js_round (js_mul (js_div (newSizeEstimate file resizedSrc) (originalSize file)) (Num 100))"

section \<open>Rasterization (\<^verbatim>\<open>resizeImage\<close>, \<^verbatim>\<open>src/unnamed/part_000\<close>, lines 14 to 49)\<close>

text \<open>
  \<^verbatim>\<open>resizeImage\<close> runs against the browser: an \<^verbatim>\<open>Image\<close> element that fires either
  \<^verbatim>\<open>onload\<close> or \<^verbatim>\<open>onerror\<close> for the source URL, a canvas whose \<^verbatim>\<open>getContext('2d')\<close> may
  return \<^verbatim>\<open>null\<close>, and \<^verbatim>\<open>toDataURL\<close>. The browser is a parameter of the model:
  \<^item> \<open>loadImage url\<close> is the decoded image when \<^verbatim>\<open>onload\<close> fires, \<open>None\<close> when
    \<^verbatim>\<open>onerror\<close> fires;
  \<^item> \<open>getContext w h\<close> tells whether a canvas of that size yields a 2d context;
  \<^item> \<open>toDataURL img w h fmt q\<close> is the data URL of the \<open>w\<close> by \<open>h\<close> canvas after
    \<^verbatim>\<open>drawImage(img, 0, 0, w, h)\<close> with smoothing enabled at quality \<^verbatim>\<open>'high'\<close>.
\<close>

record 'img browser =
  loadImage :: "string \<Rightarrow> 'img option"
  getContext :: "jsnum \<Rightarrow> jsnum \<Rightarrow> bool"
  toDataURL :: "'img \<Rightarrow> jsnum \<Rightarrow> jsnum \<Rightarrow> ImageFormat \<Rightarrow> jsnum \<Rightarrow> string"

text \<open>
  What the promise is rejected with: \<^verbatim>\<open>new Error('Could not get canvas context')\<close>, or
  the event that \<^verbatim>\<open>img.onerror = reject\<close> passes on.
\<close>

datatype rejection = Error string | ImageErrorEvent

text \<open>The settled promise: \<open>Inl\<close> when rejected, \<open>Inr\<close> of the data URL when resolved.\<close>

definition resizeImage :: "'img browser \<Rightarrow> string \<Rightarrow> ResizeOptions \<Rightarrow> rejection + string" where
  "resizeImage env sourceUrl options =
     (case loadImage env sourceUrl of
        None \<Rightarrow> Inl ImageErrorEvent
      | Some img \<Rightarrow>
          let w = ResizeOptions.width options; h = ResizeOptions.height options in
          if \<not> getContext env w h then Inl (Error ''Could not get canvas context'')
          else Inr (toDataURL env img w h (format options) (quality options)))"

section \<open>Live resize effect (\<^verbatim>\<open>src/App.tsx\<close>, lines 107 to 127)\<close>

text \<open>
  The component state that the effect reads and writes, the timer whose handle is in
  \<^verbatim>\<open>resizeTimeoutRef.current\<close>, and the rasterization runs in flight. Every timer the
  effect creates is stored in the ref, and the effect clears the ref's timer before it
  creates one, so at most one timer is pending: \<open>timer\<close> holds its due time and the
  \<^verbatim>\<open>previewSrc\<close> and \<^verbatim>\<open>options\<close> its callback closed over, and is \<open>None\<close> once the timer
  has fired or was cleared (\<^verbatim>\<open>clearTimeout\<close> of such a handle does nothing).
  \<open>hasCleanup\<close> tells whether the last run of the effect returned its cleanup function.
  \<open>inflight\<close> lists the calls of \<^verbatim>\<open>resizeImage\<close> that were started and have not settled,
  oldest first, each with its arguments. \<open>now\<close> is the time in milliseconds.
\<close>

record sched =
  previewSrc :: "string option"
  options :: ResizeOptions
  resizedSrc :: "string option"
  isResizing :: bool
  timer :: "(nat \<times> string \<times> ResizeOptions) option"
  hasCleanup :: bool
  inflight :: "(string \<times> ResizeOptions) list"
  now :: nat

text \<open>The dependency array of the effect; React compares it entry by entry.\<close>

definition effectDeps ::
  "sched \<Rightarrow> string option \<times> jsnum \<times> jsnum \<times> jsnum \<times> ImageFormat"
where
  "effectDeps s =
     (previewSrc s, ResizeOptions.width (options s), ResizeOptions.height (options s),
      quality (options s), format (options s))"

text \<open>The cleanup function: \<^verbatim>\<open>if (resizeTimeoutRef.current) clearTimeout(...)\<close>.\<close>

definition effectCleanup :: "sched \<Rightarrow> sched" where
  "effectCleanup s = s\<lparr>timer := None\<rparr>"

text \<open>
  The body of the effect. It returns early, without a cleanup function, when
  \<^verbatim>\<open>previewSrc\<close>, \<^verbatim>\<open>options.width\<close> or \<^verbatim>\<open>options.height\<close> is falsy; otherwise it clears the
  ref's timer, sets \<^verbatim>\<open>isResizing\<close> and starts a timer of 400 ms.
\<close>

definition resizeEffect :: "sched \<Rightarrow> sched" where
  "resizeEffect s =
     (case previewSrc s of
        None \<Rightarrow> s\<lparr>hasCleanup := False\<rparr>
      | Some src \<Rightarrow>
          if src = [] \<or> \<not> js_truthy (ResizeOptions.width (options s))
             \<or> \<not> js_truthy (ResizeOptions.height (options s))
          then s\<lparr>hasCleanup := False\<rparr>
          else
            let s1 = s\<lparr>timer := None\<rparr>;
                s2 = s1\<lparr>isResizing := True\<rparr>
            in s2\<lparr>timer := Some (now s + 400, src, options s), hasCleanup := True\<rparr>)"

text \<open>
  What can happen: a state update of \<^verbatim>\<open>options\<close> followed by the render; time passing;
  the pending timer firing; the run at a position of \<open>inflight\<close> settling.
\<close>

datatype event = SetOptions ResizeOptions | Advance nat | TimerFires | Settle nat

text \<open>
  After a render whose dependencies differ from those of the previous render, React
  runs the cleanup function of the previous run of the effect, if it returned one, and
  then the effect. The callback of the timer calls \<^verbatim>\<open>resizeImage\<close> with the values it
  closed over; when that promise resolves it calls \<^verbatim>\<open>setResizedSrc(result)\<close>, when it
  rejects it only logs, and in both cases \<^verbatim>\<open>setIsResizing(false)\<close>. A timer fires no
  earlier than its due time. Events that cannot happen in a state leave it unchanged.
\<close>

fun step :: "'img browser \<Rightarrow> sched \<Rightarrow> event \<Rightarrow> sched" where
  "step env s (SetOptions opts) =
     (let s1 = s\<lparr>options := opts\<rparr> in
      if effectDeps s1 = effectDeps s then s1
      else resizeEffect (if hasCleanup s1 then effectCleanup s1 else s1))"
| "step env s (Advance d) = s\<lparr>now := now s + d\<rparr>"
| "step env s TimerFires =
     (case timer s of
        None \<Rightarrow> s
      | Some (due, src, opts) \<Rightarrow>
          if due \<le> now s then s\<lparr>timer := None, inflight := inflight s @ [(src, opts)]\<rparr> else s)"
| "step env s (Settle i) =
     (if i < length (inflight s) then
        let (src, opts) = inflight s ! i;
            s1 = s\<lparr>inflight := take i (inflight s) @ drop (Suc i) (inflight s)\<rparr>
        in (case resizeImage env src opts of
              Inr result \<Rightarrow> s1\<lparr>resizedSrc := Some result, isResizing := False\<rparr>
            | Inl err \<Rightarrow> s1\<lparr>isResizing := False\<rparr>)
      else s)"

fun exec :: "'img browser \<Rightarrow> sched \<Rightarrow> event list \<Rightarrow> sched" where
  "exec env s [] = s"
| "exec env s (e # es) = exec env (step env s e) es"

text \<open>The condition under which the effect does not return early.\<close>

definition effectGuard :: "sched \<Rightarrow> bool" where
  "effectGuard s =
     (case previewSrc s of
        None \<Rightarrow> False
      | Some src \<Rightarrow> src \<noteq> [] \<and> js_truthy (ResizeOptions.width (options s))
          \<and> js_truthy (ResizeOptions.height (options s)))"

text \<open>
  A pending timer was created by a run of the effect that returned its cleanup function.
  This holds when the component mounts (no timer) and after every event.
\<close>

definition sched_inv :: "sched \<Rightarrow> bool" where
  "sched_inv s = (timer s = None \<or> hasCleanup s)"

section \<open>Sample values\<close>

abbreviation dims :: "real \<Rightarrow> real \<Rightarrow> ImageDimensions" where
  "dims w h \<equiv> \<lparr>ImageDimensions.width = Num w, ImageDimensions.height = Num h\<rparr>"

abbreviation sample_options :: "bool \<Rightarrow> ResizeOptions" where
  "sample_options lock \<equiv>
     \<lparr>ResizeOptions.width = Num 2000, height = Num 1000, percentage = Num 100, mode = pixels,
      quality = Num (3 / 4), format = image_jpeg, maintainAspectRatio = lock\<rparr>"

text \<open>
  A browser that decodes every nonempty URL and encodes a canvas by its width, and an
  editing session at rest: the image is loaded and the first run has been displayed.
\<close>

abbreviation sample_browser :: "bool \<Rightarrow> string browser" where
  "sample_browser ctx \<equiv>
     \<lparr>loadImage = (\<lambda>url. if url = [] then None else Some url),
      getContext = (\<lambda>w h. ctx),
      toDataURL = (\<lambda>img w h fmt q.
        if w = Num 1000 then ''data:image/jpeg;base64,AAAA''
        else if w = Num 500 then ''data:image/jpeg;base64,BBBB''
        else ''data:image/jpeg;base64,DDDD'')\<rparr>"

abbreviation sample_sched :: sched where
  "sample_sched \<equiv>
     \<lparr>previewSrc = Some ''data:image/png;base64,CCCC'', options = sample_options True,
      resizedSrc = Some ''data:image/jpeg;base64,DDDD'', isResizing = False, timer = None,
      hasCleanup = True, inflight = [], now = 0\<rparr>"

abbreviation sized :: "real \<Rightarrow> real \<Rightarrow> ResizeOptions" where
  "sized w h \<equiv> (sample_options True)\<lparr>ResizeOptions.width := Num w, ResizeOptions.height := Num h\<rparr>"

abbreviation busy_sched :: sched where
  "busy_sched \<equiv>
     sample_sched\<lparr>options := sized 500 250, isResizing := True, hasCleanup := True,
       inflight := [(''data:image/png;base64,CCCC'', sized 1000 500),
                    (''data:image/png;base64,CCCC'', sized 500 250)]\<rparr>"

section \<open>Rounding to a double\<close>

lemma ilog2_bounds: "0 < n \<Longrightarrow> 2 ^ ilog2 n \<le> n \<and> n < 2 ^ Suc (ilog2 n)"
proof (induction n rule: ilog2.induct)
  case (1 n)
  show ?case
  proof (cases "n < 2")
    case True
    with "1.prems" have "n = 1" by simp
    then show ?thesis by (simp add: ilog2.simps)
  next
    case False
    then have pos: "0 < n div 2" by simp
    from "1.IH" [OF False pos]
    have ih: "2 ^ ilog2 (n div 2) \<le> n div 2" "n div 2 < 2 ^ Suc (ilog2 (n div 2))" by simp_all
    have e: "ilog2 n = Suc (ilog2 (n div 2))"
      using False by (subst ilog2.simps) simp
    from ih(1) have "2 * 2 ^ ilog2 (n div 2) \<le> n" by linarith
    moreover from ih(2) have "n < 2 * 2 ^ Suc (ilog2 (n div 2))" by linarith
    ultimately show ?thesis by (simp add: e)
  qed
qed

lemma expo_bounds:
  assumes "0 < x"
  shows "2 powi expo x \<le> x \<and> x < 2 powi (expo x + 1)"
proof (cases "1 \<le> x")
  case True
  define n where "n = nat \<lfloor>x\<rfloor>"
  from True have n: "0 < n" by (simp add: n_def)
  have fx: "real n \<le> x" "x < real n + 1"
    using True by (simp_all add: n_def)
  from ilog2_bounds [OF n] have b: "2 ^ ilog2 n \<le> n" "n < 2 ^ Suc (ilog2 n)" by simp_all
  have e: "expo x = int (ilog2 n)" using True by (simp add: expo_def n_def)
  from b(1) have "(2::real) ^ ilog2 n \<le> real n"
    by (metis of_nat_le_iff of_nat_numeral of_nat_power)
  with fx(1) have lo: "(2::real) ^ ilog2 n \<le> x" by linarith
  from b(2) have "n + 1 \<le> 2 ^ Suc (ilog2 n)" by simp
  then have "real (n + 1) \<le> (2::real) ^ Suc (ilog2 n)"
    by (metis of_nat_le_iff of_nat_numeral of_nat_power)
  with fx(2) have hi: "x < (2::real) ^ Suc (ilog2 n)" by simp
  have "2 powi (int (ilog2 n) + 1) = (2::real) ^ Suc (ilog2 n)"
    by (metis of_nat_Suc of_nat_add power_int_of_nat Suc_eq_plus1 of_nat_1)
  with lo hi show ?thesis by (simp add: e)
next
  case False
  define y where "y = 1 / x"
  define c where "c = nat (\<lceil>y\<rceil> - 1)"
  from False assms have y1: "1 < y" by (simp add: y_def)
  then have cy: "2 \<le> \<lceil>y\<rceil>" by linarith
  then have c: "0 < c" by (simp add: c_def)
  have cc: "real c < y" "y \<le> real c + 1"
    using cy by (simp_all add: c_def of_nat_diff) linarith+
  from ilog2_bounds [OF c] have b: "2 ^ ilog2 c \<le> c" "c < 2 ^ Suc (ilog2 c)" by simp_all
  have e: "expo x = - int (Suc (ilog2 c))" using False by (simp add: expo_def c_def y_def)
  from b(1) have "(2::real) ^ ilog2 c \<le> real c"
    by (metis of_nat_le_iff of_nat_numeral of_nat_power)
  with cc(1) have lo: "(2::real) ^ ilog2 c < y" by linarith
  from b(2) have "c + 1 \<le> 2 ^ Suc (ilog2 c)" by simp
  then have "real (c + 1) \<le> (2::real) ^ Suc (ilog2 c)"
    by (metis of_nat_le_iff of_nat_numeral of_nat_power)
  with cc(2) have hi: "y \<le> (2::real) ^ Suc (ilog2 c)" by simp
  have x: "x = 1 / y" using assms by (simp add: y_def)
  have p1: "2 powi (- int (Suc (ilog2 c))) = 1 / (2::real) ^ Suc (ilog2 c)"
    by (simp only: power_int_minus_divide power_int_of_nat)
  have p2: "2 powi (- int (Suc (ilog2 c)) + 1) = 1 / (2::real) ^ ilog2 c"
    by (simp add: power_int_minus_divide flip: power_int_minus)
  have "1 / (2::real) ^ Suc (ilog2 c) \<le> 1 / y"
    using hi y1 by (intro divide_left_mono) simp_all
  then have r1: "1 / (2::real) ^ Suc (ilog2 c) \<le> x" by (simp only: x)
  have "1 / y < 1 / (2::real) ^ ilog2 c"
    using lo y1 by (intro divide_strict_left_mono) simp_all
  then have r2: "x < 1 / (2::real) ^ ilog2 c" by (simp only: x)
  show ?thesis by (simp only: e p1 p2 r1 r2 simp_thms)
qed

lemma rne_error: "\<bar>of_int (rne m) - m\<bar> \<le> 1 / 2"
  unfolding rne_def Let_def by (auto simp: abs_if) linarith+

lemma rne_of_int: "rne (of_int n) = n"
  by (simp add: rne_def)

lemma pow2_less_exp: "(2::real) powi a < 2 powi b \<Longrightarrow> a < b"
proof (rule ccontr)
  assume lt: "(2::real) powi a < 2 powi b" and "\<not> a < b"
  then have "b \<le> a" by simp
  then have "(2::real) powi b \<le> 2 powi a" by (intro power_int_increasing) simp_all
  with lt show False by simp
qed

lemma expo_ge:
  assumes "0 < x" and "2 powi a \<le> x"
  shows "a \<le> expo x"
proof -
  from expo_bounds [OF assms(1)] have "x < 2 powi (expo x + 1)" by simp
  with assms(2) have "(2::real) powi a < 2 powi (expo x + 1)" by linarith
  then have "a < expo x + 1" by (rule pow2_less_exp)
  then show ?thesis by simp
qed

lemma overflow_threshold_half: "2 * (2::real) powi 1023 = overflow_threshold"
  by (simp add: overflow_threshold_def)

lemma fl_quantum:
  assumes "x \<noteq> 0"
    and "\<not> overflow_threshold \<le>
      \<bar>of_int (rne (x / 2 powi (max (expo \<bar>x\<bar>) (- 1022) - 52)))
         * 2 powi (max (expo \<bar>x\<bar>) (- 1022) - 52)\<bar>"
  shows "fl x = Num (of_int (rne (x / 2 powi (max (expo \<bar>x\<bar>) (- 1022) - 52)))
         * 2 powi (max (expo \<bar>x\<bar>) (- 1022) - 52))"
  unfolding fl_def Let_def by (simp only: assms if_False)

lemma fl_normal:
  assumes nz: "x \<noteq> 0" and lo: "- 1022 \<le> expo \<bar>x\<bar>" and hi: "\<bar>x\<bar> < 2 powi 1023"
  shows "\<exists>y. fl x = Num y \<and> \<bar>y - x\<bar> \<le> \<bar>x\<bar> / 2 ^ 53"
proof -
  from nz have pos: "0 < \<bar>x\<bar>" by simp
  define e where "e = expo \<bar>x\<bar>"
  from expo_bounds [OF pos] have eb: "2 powi e \<le> \<bar>x\<bar>" "\<bar>x\<bar> < 2 powi (e + 1)"
    by (simp_all add: e_def)
  from lo have m: "max (expo \<bar>x\<bar>) (- 1022) = e" by (simp add: e_def)
  define q where "q = (2::real) powi (e - 52)"
  have qpos: "0 < q" by (simp add: q_def)
  define y where "y = of_int (rne (x / q)) * q"
  have "y - x = (of_int (rne (x / q)) - x / q) * q"
    using qpos by (simp add: y_def field_simps)
  then have "\<bar>y - x\<bar> = \<bar>of_int (rne (x / q)) - x / q\<bar> * q"
    using qpos by (simp add: abs_mult)
  also have "\<dots> \<le> (1 / 2) * q"
    using qpos by (intro mult_right_mono rne_error) simp
  finally have err: "\<bar>y - x\<bar> \<le> q / 2" by simp
  have "q = 2 powi e / 2 ^ 52"
    by (simp add: q_def power_int_diff)
  then have q2: "q / 2 = 2 powi e / 2 ^ 53" by simp
  also have "\<dots> \<le> \<bar>x\<bar> / 2 ^ 53"
    using eb(1) by (intro divide_right_mono) simp_all
  finally have qx: "q / 2 \<le> \<bar>x\<bar> / 2 ^ 53" .
  with err have bound: "\<bar>y - x\<bar> \<le> \<bar>x\<bar> / 2 ^ 53" by linarith
  have "\<bar>y\<bar> \<le> \<bar>x\<bar> + \<bar>y - x\<bar>" by linarith
  also have "\<dots> \<le> \<bar>x\<bar> + \<bar>x\<bar> / 2 ^ 53" using bound by simp
  also have "\<dots> \<le> 2 * \<bar>x\<bar>" by (simp add: field_simps)
  also have "\<dots> < 2 * 2 powi 1023" using hi by (simp only: mult_less_cancel_left_pos zero_less_numeral)
  finally have "\<bar>y\<bar> < overflow_threshold" by (simp only: overflow_threshold_half)
  then have "\<not> overflow_threshold \<le> \<bar>y\<bar>" by simp
  have ny: "\<not> overflow_threshold \<le>
      \<bar>of_int (rne (x / 2 powi (max (expo \<bar>x\<bar>) (- 1022) - 52)))
         * 2 powi (max (expo \<bar>x\<bar>) (- 1022) - 52)\<bar>"
    unfolding m using \<open>\<not> overflow_threshold \<le> \<bar>y\<bar>\<close> by (simp only: y_def q_def simp_thms)
  have "fl x = Num y"
    unfolding y_def q_def using fl_quantum [OF nz ny] by (simp only: m)
  with bound show ?thesis by blast
qed

lemma fl_zero: "fl 0 = Num 0"
  by (simp add: fl_def)

lemma fl_exact:
  assumes x: "x = of_int n * 2 powi j" and n: "\<bar>n\<bar> < 2 ^ 53"
    and j: "- 1074 \<le> j" "j \<le> 970"
  shows "fl x = Num x"
proof (cases "x = 0")
  case True
  then show ?thesis by (simp add: fl_zero)
next
  case False
  then have pos: "0 < \<bar>x\<bar>" by simp
  define e where "e = max (expo \<bar>x\<bar>) (- 1022)"
  define q where "q = (2::real) powi (e - 52)"
  have qpos: "0 < q" by (simp add: q_def)
  have ax: "\<bar>x\<bar> = of_int \<bar>n\<bar> * 2 powi j"
    by (simp add: x abs_mult)
  have "of_int \<bar>n\<bar> < (2::real) ^ 53"
    using n by (metis of_int_less_iff of_int_numeral of_int_power)
  then have "\<bar>x\<bar> < 2 ^ 53 * 2 powi j"
    unfolding ax by (intro mult_strict_right_mono) simp_all
  also have "\<dots> = 2 powi (53 + j)"
    by (simp add: power_int_add)
  finally have up: "\<bar>x\<bar> < 2 powi (53 + j)" .
  have k: "0 \<le> j - e + 52"
  proof (cases "expo \<bar>x\<bar> \<le> - 1022")
    case True
    then have "e = - 1022" by (simp add: e_def)
    with j show ?thesis by simp
  next
    case False
    then have ee: "e = expo \<bar>x\<bar>" by (simp add: e_def)
    from expo_bounds [OF pos] have "2 powi e \<le> \<bar>x\<bar>" by (simp add: ee)
    with up have "(2::real) powi e < 2 powi (53 + j)" by linarith
    then have "e < 53 + j" by (rule pow2_less_exp)
    then show ?thesis by simp
  qed
  have "x / q = of_int n * (2 powi j / 2 powi (e - 52))"
    by (simp add: x q_def)
  also have "2 powi j / 2 powi (e - 52) = (2::real) powi (j - e + 52)"
    by (simp add: power_int_diff power_int_add field_simps)
  also have "\<dots> = 2 ^ nat (j - e + 52)"
    using k by (simp add: power_int_nonneg_exp)
  finally have "x / q = of_int (n * 2 ^ nat (j - e + 52))" by simp
  then have "of_int (rne (x / q)) = x / q"
    by (simp only: rne_of_int)
  then have y: "of_int (rne (x / q)) * q = x"
    using qpos by simp
  have "\<bar>x\<bar> < 2 powi (53 + j)" by (rule up)
  also have "\<dots> \<le> 2 powi 1023"
    using j by (intro power_int_increasing) simp_all
  also have "\<dots> \<le> 2 * 2 powi 1023" by simp
  finally have "\<bar>x\<bar> < overflow_threshold" by (simp only: overflow_threshold_half)
  then have "\<not> overflow_threshold \<le> \<bar>of_int (rne (x / q)) * q\<bar>" by (simp only: y)
  then have "fl x = Num (of_int (rne (x / q)) * q)"
    unfolding q_def e_def by (rule fl_quantum [OF False])
  then show ?thesis by (simp only: y)
qed


lemmas fl_eval = fl_def js_lit_def expo_def rne_def ilog2.simps Let_def overflow_threshold_def

lemma fl_range:
  assumes lo: "1 / 2 ^ 107 \<le> x" and hi: "x \<le> 2 ^ 107"
  shows "\<exists>y. fl x = Num y \<and> \<bar>y - x\<bar> \<le> x / 2 ^ 53"
proof -
  have p: "(2::real) powi (- 107) = 1 / 2 ^ 107"
    by (simp only: power_int_minus_divide power_int_numeral)
  have "(0::real) < 1 / 2 ^ 107" by simp
  with lo have pos: "0 < x" by linarith
  then have ax: "\<bar>x\<bar> = x" by simp
  have "- 107 \<le> expo x"
    using pos lo by (intro expo_ge) (simp_all only: p)
  then have e: "- 1022 \<le> expo \<bar>x\<bar>" by (simp add: ax)
  have "(2::real) ^ 107 < 2 ^ 1023" by (intro power_strict_increasing) simp_all
  with hi have "\<bar>x\<bar> < 2 powi 1023" by (simp only: ax power_int_numeral)
  from fl_normal [OF _ e this] pos show ?thesis by (simp add: ax)
qed

lemma mul_fl_accuracy:
  assumes v: "v = 0 \<or> (1 / 2 ^ 53 \<le> v \<and> v \<le> 2 ^ 53)"
    and t: "t = 0 \<or> (1 / 2 ^ 53 \<le> t \<and> t \<le> 2 ^ 53)"
  shows "\<exists>r p. fl t = Num r \<and> js_mul (Num v) (Num r) = Num p \<and> \<bar>p - v * t\<bar> \<le> v * t / 2 ^ 51"
proof (cases "t = 0")
  case True
  then show ?thesis by (simp add: fl_zero)
next
  case False
  with t have tr: "1 / 2 ^ 53 \<le> t" "t \<le> 2 ^ 53" by simp_all
  have "(0::real) < 1 / 2 ^ 53" by simp
  with tr(1) have tpos: "0 < t" by linarith
  have "1 / 2 ^ 107 \<le> 1 / (2::real) ^ 53" by (intro divide_left_mono power_increasing) simp_all
  with tr(1) have tlo: "1 / 2 ^ 107 \<le> t" by linarith
  have "(2::real) ^ 53 \<le> 2 ^ 107" by (intro power_increasing) simp_all
  with tr(2) have thi: "t \<le> 2 ^ 107" by linarith
  from fl_range [OF tlo thi] obtain r where r: "fl t = Num r" "\<bar>r - t\<bar> \<le> t / 2 ^ 53" by blast
  have "t / 2 ^ 53 \<le> t / 2" using tpos by (intro divide_left_mono) simp_all
  with r(2) have rlo: "t / 2 \<le> r" by linarith
  have rhi: "r \<le> t + t / 2 ^ 53" using r(2) by linarith
  show ?thesis
  proof (cases "v = 0")
    case True
    with r show ?thesis by (simp add: fl_zero)
  next
    case False
    with v have vr: "1 / 2 ^ 53 \<le> v" "v \<le> 2 ^ 53" by simp_all
    have "(0::real) < 1 / 2 ^ 53" by simp
    with vr(1) have vpos: "0 < v" by linarith
    define x where "x = v * r"
    have "(1 / 2 ^ 53) * ((1 / 2 ^ 53) / 2) \<le> v * (t / 2)"
      using vr(1) tr(1) by (intro mult_mono) simp_all
    also have "\<dots> \<le> v * r" using rlo vpos by (intro mult_left_mono) simp_all
    finally have xlo: "1 / 2 ^ 107 \<le> x" by (simp add: x_def)
    have "v * r \<le> v * (t + t / 2 ^ 53)" using rhi vpos by (intro mult_left_mono) simp_all
    also have "\<dots> \<le> 2 ^ 53 * (2 ^ 53 + 2 ^ 53 / 2 ^ 53)"
      using vr(2) tr(2) vpos tpos by (intro mult_mono add_mono divide_right_mono) simp_all
    also have "\<dots> \<le> 2 ^ 107" by simp
    finally have xhi: "x \<le> 2 ^ 107" by (simp add: x_def)
    from fl_range [OF xlo xhi] obtain p where p: "fl x = Num p" "\<bar>p - x\<bar> \<le> x / 2 ^ 53"
      by blast
    have xw: "x \<le> v * t + v * t / 2 ^ 53"
      using rhi vpos unfolding x_def
      by (metis (no_types) distrib_left mult_left_mono less_imp_le times_divide_eq_right)
    have "\<bar>x - v * t\<bar> = v * \<bar>r - t\<bar>"
      using vpos by (simp add: x_def abs_mult flip: right_diff_distrib)
    also have "\<dots> \<le> v * (t / 2 ^ 53)"
      using r(2) vpos by (intro mult_left_mono) simp_all
    finally have d1: "\<bar>x - v * t\<bar> \<le> v * t / 2 ^ 53" by simp
    define w where "w = v * t"
    have wpos: "0 \<le> w" using vpos tpos by (simp add: w_def)
    have "\<bar>p - w\<bar> \<le> \<bar>p - x\<bar> + \<bar>x - w\<bar>" by linarith
    also have "\<dots> \<le> x / 2 ^ 53 + w / 2 ^ 53"
      using p(2) d1 by (simp add: w_def)
    also have "\<dots> \<le> (w + w / 2 ^ 53) / 2 ^ 53 + w / 2 ^ 53"
      using xw by (simp add: w_def divide_right_mono)
    also have "\<dots> \<le> w / 2 ^ 51"
      using wpos by (simp add: field_simps)
    finally have "\<bar>p - v * t\<bar> \<le> v * t / 2 ^ 51" by (simp add: w_def)
    with r(1) p(1) show ?thesis by (simp add: x_def)
  qed
qed

lemma round_mul_fl_accuracy:
  assumes v: "v = 0 \<or> (1 / 2 ^ 53 \<le> v \<and> v \<le> 2 ^ 53)"
    and t: "t = 0 \<or> (1 / 2 ^ 53 \<le> t \<and> t \<le> 2 ^ 53)"
    and r: "fl t = q"
  shows "\<exists>h. js_round (js_mul (Num v) q) = Num (of_int h)
     \<and> \<bar>of_int h - v * t\<bar> \<le> 1 / 2 + v * t / 2 ^ 51"
proof -
  from mul_fl_accuracy [OF v t] r obtain r' p where
    p: "q = Num r'" "js_mul (Num v) (Num r') = Num p" "\<bar>p - v * t\<bar> \<le> v * t / 2 ^ 51"
    by auto
  have "\<bar>of_int (round p) - p\<bar> \<le> 1 / 2" by (rule of_int_round_abs_le)
  with p(3) have "\<bar>of_int (round p) - v * t\<bar> \<le> 1 / 2 + v * t / 2 ^ 51" by linarith
  moreover have "js_round (js_mul (Num v) q) = Num (of_int (round p))"
    by (simp only: p(1) p(2) js_round.simps round_def)
  ultimately show ?thesis by blast
qed

section \<open>The dimension handlers\<close>

lemma nat_range:
  assumes "n \<le> 2 ^ 53"
  shows "real n = 0 \<or> (1 / 2 ^ 53 \<le> real n \<and> real n \<le> 2 ^ 53)"
proof (cases "n = 0")
  case True
  then show ?thesis by simp
next
  case False
  then have "1 \<le> real n" by simp
  moreover have "(1::real) / 2 ^ 53 \<le> 1" by simp
  moreover from assms have "real n \<le> 2 ^ 53"
    by (metis of_nat_le_iff of_nat_numeral of_nat_power)
  ultimately show ?thesis by linarith
qed

lemma ratio_range:
  assumes a: "1 \<le> a" "a \<le> 2 ^ 53" and b: "b \<le> 2 ^ 53"
  shows "real b / real a = 0 \<or> (1 / 2 ^ 53 \<le> real b / real a \<and> real b / real a \<le> 2 ^ 53)"
proof (cases "b = 0")
  case True
  then show ?thesis by simp
next
  case False
  then have b1: "1 \<le> real b" by simp
  from a have a1: "1 \<le> real a" by simp
  from a(2) have a2: "real a \<le> 2 ^ 53" by (metis of_nat_le_iff of_nat_numeral of_nat_power)
  from b have b2: "real b \<le> 2 ^ 53" by (metis of_nat_le_iff of_nat_numeral of_nat_power)
  have "1 / 2 ^ 53 \<le> 1 / real a"
    using a1 a2 by (intro divide_left_mono) simp_all
  also have "\<dots> \<le> real b / real a"
    using b1 a1 by (intro divide_right_mono) simp_all
  finally have lo: "1 / 2 ^ 53 \<le> real b / real a" .
  have "real b / real a \<le> real b / 1"
    using a1 b1 by (intro divide_left_mono) simp_all
  with b2 have "real b / real a \<le> 2 ^ 53" by simp
  with lo show ?thesis by simp
qed

lemma editDimensions_negative:
  "js_lt val (Num 0) \<Longrightarrow> editDimensions originalDims opts key val = opts"
  by (simp add: editDimensions_def updateDimensions_def)

lemma editDimensions_width_locked:
  assumes "0 \<le> v" "maintainAspectRatio opts" "0 < ow"
  shows "editDimensions (dims ow oh) opts key_width (Num v) =
     opts\<lparr>ResizeOptions.width := Num v,
       ResizeOptions.height := js_round (js_mul (Num v) (fl (oh / ow))),
       percentage := js_or (js_round (js_mul (fl (v / ow)) (Num 100))) (Num 0)\<rparr>"
  using assms by (simp add: editDimensions_def updateDimensions_def js_gt_def)

lemma editDimensions_height_locked:
  assumes "0 \<le> v" "maintainAspectRatio opts" "0 < oh"
  shows "editDimensions (dims ow oh) opts key_height (Num v) =
     opts\<lparr>ResizeOptions.width := js_round (js_mul (Num v) (fl (ow / oh))),
       ResizeOptions.height := Num v,
       percentage :=
         js_or (js_round (js_mul (js_div (js_round (js_mul (Num v) (fl (ow / oh)))) (Num ow))
           (Num 100))) (Num 0)\<rparr>"
  using assms by (simp add: editDimensions_def updateDimensions_def js_gt_def)

lemma editDimensions_width_unlocked:
  assumes "\<not> js_lt val (Num 0)" "\<not> maintainAspectRatio opts"
  shows "editDimensions originalDims opts key_width val =
     opts\<lparr>ResizeOptions.width := val,
       percentage :=
         js_or (js_round (js_mul (js_div val (ImageDimensions.width originalDims)) (Num 100)))
           (Num 0)\<rparr>"
  using assms by (simp add: editDimensions_def updateDimensions_def)

lemma editDimensions_height_unlocked:
  assumes "\<not> js_lt val (Num 0)" "\<not> maintainAspectRatio opts"
  shows "editDimensions originalDims opts key_height val =
     opts\<lparr>ResizeOptions.height := val,
       percentage :=
         js_or (js_round (js_mul (js_div (ResizeOptions.width opts)
                  (ImageDimensions.width originalDims)) (Num 100)))
           (Num 0)\<rparr>"
  using assms by (simp add: editDimensions_def updateDimensions_def)

text \<open>
  Claim C1, as stated: with the lock on and a nonzero original size of the edited axis,
  the other axis is \<open>round (newValue * otherOriginal / thisOriginal)\<close>. The handler
  first rounds the quotient \<open>otherOriginal / thisOriginal\<close> to a double and then the
  product, so a tie can be lost: for an original of 768 by 1000 and the width 3120,
  \<open>3120 * 1000 / 768\<close> is \<open>4062.5\<close> and rounds to 4063, also when the product
  and then the quotient are computed in doubles, and the handler sets the height to
  4062.
\<close>

theorem rounded_ratio_counterexample:
  "maintainAspectRatio (sample_options True)
   \<and> ResizeOptions.height (editDimensions (dims 768 1000) (sample_options True) key_width (Num 3120))
       = Num 4062
   \<and> round (3120 * 1000 / 768 :: real) = 4063
   \<and> js_round (js_div (js_mul (Num 3120) (Num 1000)) (Num 768)) = Num 4063"
  by (simp add: editDimensions_def updateDimensions_def js_gt_def fl_eval round_def)

text \<open>
  Claim C1, amended. A width or height edit with a negative value leaves the options as
  they are. With a value \<open>v \<ge> 0\<close>: when the lock is on and the original size of the
  edited axis is nonzero (original sizes are never negative), the other axis becomes
  \<^verbatim>\<open>Math.round(v * (otherOriginal / thisOriginal))\<close>, the quotient and the product each
  rounded to a double; for sizes and values that are integers up to \<open>2 ^ 53\<close> this is
  an integer within \<open>1 / 2 + x / 2 ^ 51\<close> of \<open>x = v * otherOriginal / thisOriginal\<close>.
  When the lock is off, the other axis and every field but the edited axis and the
  percentage keep their values. For an original of 2000 by 1000 with the lock on, the
  width 1000 gives the height 500 and the percentage 50.
\<close>

theorem updateDimensions_resolves_axes:
  "(js_lt val (Num 0) \<longrightarrow> editDimensions originalDims opts key val = opts)
   \<and> (0 \<le> v \<and> maintainAspectRatio opts \<and> 0 \<le> ow \<and> ow \<noteq> 0 \<longrightarrow>
        ResizeOptions.width (editDimensions (dims ow oh) opts key_width (Num v)) = Num v \<and>
        ResizeOptions.height (editDimensions (dims ow oh) opts key_width (Num v)) =
          js_round (js_mul (Num v) (js_div (Num oh) (Num ow))))
   \<and> (0 \<le> v \<and> maintainAspectRatio opts \<and> 0 \<le> oh \<and> oh \<noteq> 0 \<longrightarrow>
        ResizeOptions.height (editDimensions (dims ow oh) opts key_height (Num v)) = Num v \<and>
        ResizeOptions.width (editDimensions (dims ow oh) opts key_height (Num v)) =
          js_round (js_mul (Num v) (js_div (Num ow) (Num oh))))
   \<and> (maintainAspectRatio opts \<and> 1 \<le> nw \<and> nw \<le> 2 ^ 53 \<and> nh \<le> 2 ^ 53 \<and> nv \<le> 2 ^ 53 \<longrightarrow>
        (\<exists>h. ResizeOptions.height
                (editDimensions (dims (real nw) (real nh)) opts key_width (Num (real nv)))
              = Num (of_int h)
            \<and> \<bar>of_int h - real nv * real nh / real nw\<bar>
                \<le> 1 / 2 + (real nv * real nh / real nw) / 2 ^ 51))
   \<and> (maintainAspectRatio opts \<and> 1 \<le> nh \<and> nh \<le> 2 ^ 53 \<and> nw \<le> 2 ^ 53 \<and> nv \<le> 2 ^ 53 \<longrightarrow>
        (\<exists>w. ResizeOptions.width
                (editDimensions (dims (real nw) (real nh)) opts key_height (Num (real nv)))
              = Num (of_int w)
            \<and> \<bar>of_int w - real nv * real nw / real nh\<bar>
                \<le> 1 / 2 + (real nv * real nw / real nh) / 2 ^ 51))
   \<and> (0 \<le> v \<and> \<not> maintainAspectRatio opts \<longrightarrow>
        editDimensions originalDims opts key_width (Num v) =
          opts\<lparr>ResizeOptions.width := Num v,
            percentage := percentage (editDimensions originalDims opts key_width (Num v))\<rparr> \<and>
        editDimensions originalDims opts key_height (Num v) =
          opts\<lparr>ResizeOptions.height := Num v,
            percentage := percentage (editDimensions originalDims opts key_height (Num v))\<rparr>)
   \<and> (maintainAspectRatio opts \<longrightarrow>
        ResizeOptions.width (editDimensions (dims 2000 1000) opts key_width (Num 1000)) = Num 1000 \<and>
        ResizeOptions.height (editDimensions (dims 2000 1000) opts key_width (Num 1000)) = Num 500 \<and>
        percentage (editDimensions (dims 2000 1000) opts key_width (Num 1000)) = Num 50)"
proof (intro conjI impI)
  assume "js_lt val (Num 0)"
  then show "editDimensions originalDims opts key val = opts"
    by (rule editDimensions_negative)
next
  assume a: "0 \<le> v \<and> maintainAspectRatio opts \<and> 0 \<le> ow \<and> ow \<noteq> 0"
  then have "0 < ow" by simp
  with a have e: "editDimensions (dims ow oh) opts key_width (Num v) =
     opts\<lparr>ResizeOptions.width := Num v,
       ResizeOptions.height := js_round (js_mul (Num v) (fl (oh / ow))),
       percentage := js_or (js_round (js_mul (fl (v / ow)) (Num 100))) (Num 0)\<rparr>"
    by (simp add: editDimensions_width_locked)
  show "ResizeOptions.width (editDimensions (dims ow oh) opts key_width (Num v)) = Num v"
    by (simp add: e)
  show "ResizeOptions.height (editDimensions (dims ow oh) opts key_width (Num v)) =
          js_round (js_mul (Num v) (js_div (Num oh) (Num ow)))"
    using a by (simp add: e)
next
  assume a: "0 \<le> v \<and> maintainAspectRatio opts \<and> 0 \<le> oh \<and> oh \<noteq> 0"
  then have "0 < oh" by simp
  with a have e: "editDimensions (dims ow oh) opts key_height (Num v) =
     opts\<lparr>ResizeOptions.width := js_round (js_mul (Num v) (fl (ow / oh))),
       ResizeOptions.height := Num v,
       percentage :=
         js_or (js_round (js_mul (js_div (js_round (js_mul (Num v) (fl (ow / oh)))) (Num ow))
           (Num 100))) (Num 0)\<rparr>"
    by (simp add: editDimensions_height_locked)
  show "ResizeOptions.height (editDimensions (dims ow oh) opts key_height (Num v)) = Num v"
    by (simp add: e)
  show "ResizeOptions.width (editDimensions (dims ow oh) opts key_height (Num v)) =
          js_round (js_mul (Num v) (js_div (Num ow) (Num oh)))"
    using a by (simp add: e)
next
  assume a: "maintainAspectRatio opts \<and> 1 \<le> nw \<and> nw \<le> 2 ^ 53 \<and> nh \<le> 2 ^ 53 \<and> nv \<le> 2 ^ 53"
  then have e: "editDimensions (dims (real nw) (real nh)) opts key_width (Num (real nv)) =
     opts\<lparr>ResizeOptions.width := Num (real nv),
       ResizeOptions.height := js_round (js_mul (Num (real nv)) (fl (real nh / real nw))),
       percentage := js_or (js_round (js_mul (fl (real nv / real nw)) (Num 100))) (Num 0)\<rparr>"
    by (intro editDimensions_width_locked) simp_all
  from a have "\<exists>h. js_round (js_mul (Num (real nv)) (fl (real nh / real nw))) = Num (of_int h)
     \<and> \<bar>of_int h - real nv * (real nh / real nw)\<bar> \<le> 1 / 2 + real nv * (real nh / real nw) / 2 ^ 51"
    by (intro round_mul_fl_accuracy nat_range ratio_range) simp_all
  then show "\<exists>h. ResizeOptions.height
                (editDimensions (dims (real nw) (real nh)) opts key_width (Num (real nv)))
              = Num (of_int h)
            \<and> \<bar>of_int h - real nv * real nh / real nw\<bar>
                \<le> 1 / 2 + (real nv * real nh / real nw) / 2 ^ 51"
    unfolding e by simp
next
  assume a: "maintainAspectRatio opts \<and> 1 \<le> nh \<and> nh \<le> 2 ^ 53 \<and> nw \<le> 2 ^ 53 \<and> nv \<le> 2 ^ 53"
  then have e: "editDimensions (dims (real nw) (real nh)) opts key_height (Num (real nv)) =
     opts\<lparr>ResizeOptions.width := js_round (js_mul (Num (real nv)) (fl (real nw / real nh))),
       ResizeOptions.height := Num (real nv),
       percentage :=
         js_or (js_round (js_mul (js_div (js_round (js_mul (Num (real nv)) (fl (real nw / real nh))))
           (Num (real nw))) (Num 100))) (Num 0)\<rparr>"
    by (intro editDimensions_height_locked) simp_all
  from a have "\<exists>w. js_round (js_mul (Num (real nv)) (fl (real nw / real nh))) = Num (of_int w)
     \<and> \<bar>of_int w - real nv * (real nw / real nh)\<bar> \<le> 1 / 2 + real nv * (real nw / real nh) / 2 ^ 51"
    by (intro round_mul_fl_accuracy nat_range ratio_range) simp_all
  then show "\<exists>w. ResizeOptions.width
                (editDimensions (dims (real nw) (real nh)) opts key_height (Num (real nv)))
              = Num (of_int w)
            \<and> \<bar>of_int w - real nv * real nw / real nh\<bar>
                \<le> 1 / 2 + (real nv * real nw / real nh) / 2 ^ 51"
    unfolding e by simp
next
  assume a: "0 \<le> v \<and> \<not> maintainAspectRatio opts"
  then have n: "\<not> js_lt (Num v) (Num 0)" by simp
  from a n show "editDimensions originalDims opts key_width (Num v) =
          opts\<lparr>ResizeOptions.width := Num v,
            percentage := percentage (editDimensions originalDims opts key_width (Num v))\<rparr>"
    by (simp add: editDimensions_width_unlocked)
  from a n show "editDimensions originalDims opts key_height (Num v) =
          opts\<lparr>ResizeOptions.height := Num v,
            percentage := percentage (editDimensions originalDims opts key_height (Num v))\<rparr>"
    by (simp add: editDimensions_height_unlocked)
next
  assume a: "maintainAspectRatio opts"
  then have e: "editDimensions (dims 2000 1000) opts key_width (Num 1000) =
     opts\<lparr>ResizeOptions.width := Num 1000,
       ResizeOptions.height := js_round (js_mul (Num 1000) (fl (1000 / 2000))),
       percentage := js_or (js_round (js_mul (fl (1000 / 2000)) (Num 100))) (Num 0)\<rparr>"
    by (simp add: editDimensions_width_locked)
  have h: "fl (1 / 2) = Num (1 / 2)" by (simp add: fl_eval)
  have h2: "fl 500 = Num 500" by (simp add: fl_eval)
  have h3: "fl 50 = Num 50" by (simp add: fl_eval)
  show "ResizeOptions.width (editDimensions (dims 2000 1000) opts key_width (Num 1000)) = Num 1000"
    by (simp add: e)
  show "ResizeOptions.height (editDimensions (dims 2000 1000) opts key_width (Num 1000)) = Num 500"
    by (simp add: e h h2)
  show "percentage (editDimensions (dims 2000 1000) opts key_width (Num 1000)) = Num 50"
    by (simp add: e h h3 js_or_def)
qed

theorem updateDimensions_resolves_axes_witness:
  "js_lt (Num (- 5)) (Num 0)
   \<and> editDimensions (dims 2000 1000) (sample_options True) key_width (Num (- 5)) = sample_options True
   \<and> ResizeOptions.height (editDimensions (dims 2000 1000) (sample_options True) key_width (Num 1001))
       = js_round (js_mul (Num 1001) (js_div (Num 1000) (Num 2000)))
   \<and> ResizeOptions.height (editDimensions (dims 2000 1000) (sample_options True) key_width (Num 1001))
       = Num 501
   \<and> ResizeOptions.width (editDimensions (dims 2000 1000) (sample_options True) key_height (Num 1001))
       = js_round (js_mul (Num 1001) (js_div (Num 2000) (Num 1000)))
   \<and> ResizeOptions.width (editDimensions (dims 2000 1000) (sample_options True) key_height (Num 1001))
       = Num 2002
   \<and> (\<exists>h. ResizeOptions.height
           (editDimensions (dims (real 768) (real 1000)) (sample_options True) key_width
              (Num (real 3120))) = Num (of_int h)
         \<and> \<bar>of_int h - real 3120 * real 1000 / real 768\<bar>
             \<le> 1 / 2 + (real 3120 * real 1000 / real 768) / 2 ^ 51)
   \<and> (\<exists>w. ResizeOptions.width
           (editDimensions (dims (real 768) (real 1000)) (sample_options True) key_height
              (Num (real 3120))) = Num (of_int w)
         \<and> \<bar>of_int w - real 3120 * real 768 / real 1000\<bar>
             \<le> 1 / 2 + (real 3120 * real 768 / real 1000) / 2 ^ 51)
   \<and> editDimensions (dims 2000 1000) (sample_options False) key_width (Num 1001) =
       (sample_options False)\<lparr>ResizeOptions.width := Num 1001,
          percentage := percentage
            (editDimensions (dims 2000 1000) (sample_options False) key_width (Num 1001))\<rparr>
   \<and> percentage (editDimensions (dims 2000 1000) (sample_options False) key_width (Num 1001)) = Num 50
   \<and> percentage (editDimensions (dims 2000 1000) (sample_options True) key_width (Num 1000)) = Num 50"
proof -
  note locked = updateDimensions_resolves_axes [where val = "Num (- 5)"
      and originalDims = "dims 2000 1000" and opts = "sample_options True" and key = key_width
      and v = 1001 and ow = 2000 and oh = 1000 and nw = 768 and nh = 1000 and nv = 3120]
  note unlocked = updateDimensions_resolves_axes [where val = "Num (- 5)"
      and originalDims = "dims 2000 1000" and opts = "sample_options False" and key = key_width
      and v = 1001 and ow = 2000 and oh = 1000 and nw = 768 and nh = 1000 and nv = 3120]
  have hyps: "js_lt (Num (- 5)) (Num 0)"
    "(0::real) \<le> 1001 \<and> maintainAspectRatio (sample_options True) \<and> (0::real) \<le> 2000
       \<and> (2000::real) \<noteq> 0"
    "(0::real) \<le> 1001 \<and> maintainAspectRatio (sample_options True) \<and> (0::real) \<le> 1000
       \<and> (1000::real) \<noteq> 0"
    "maintainAspectRatio (sample_options True) \<and> (1::nat) \<le> 768 \<and> (768::nat) \<le> 2 ^ 53
       \<and> (1000::nat) \<le> 2 ^ 53 \<and> (3120::nat) \<le> 2 ^ 53"
    "maintainAspectRatio (sample_options True) \<and> (1::nat) \<le> 1000 \<and> (1000::nat) \<le> 2 ^ 53
       \<and> (768::nat) \<le> 2 ^ 53 \<and> (3120::nat) \<le> 2 ^ 53"
    "maintainAspectRatio (sample_options True)"
    "(0::real) \<le> 1001 \<and> \<not> maintainAspectRatio (sample_options False)"
    by simp_all
  have vals: "ResizeOptions.height
        (editDimensions (dims 2000 1000) (sample_options True) key_width (Num 1001)) = Num 501"
    "ResizeOptions.width
        (editDimensions (dims 2000 1000) (sample_options True) key_height (Num 1001)) = Num 2002"
    "percentage (editDimensions (dims 2000 1000) (sample_options False) key_width (Num 1001)) = Num 50"
    by (simp_all add: editDimensions_def updateDimensions_def js_or_def js_gt_def fl_eval)
  from locked unlocked hyps vals show ?thesis by blast
qed

text \<open>
  Claim C2. After a width or height edit the percentage is
  \<open>round (width / original.width * 100)\<close>, and it is 0, never a non-finite value, when
  the original width is 0. The handler does not do this: with an original width of 0
  and the width edited to 5, the division gives \<open>Infinity\<close>, which \<^verbatim>\<open>|| 0\<close> lets
  through, so the percentage is \<open>Infinity\<close>.
\<close>

theorem updateDimensions_percentage_zero_width:
  "percentage (editDimensions (dims 0 0) opts key_width (Num 5)) = PosInf
   \<and> \<not> js_finite (percentage (editDimensions (dims 0 0) opts key_width (Num 5)))"
  by (simp add: editDimensions_def updateDimensions_def js_gt_def js_or_def)

lemma percent_range:
  fixes p :: real
  assumes "1 \<le> p" "p \<le> 500"
  shows "p / 100 = 0 \<or> (1 / 2 ^ 53 \<le> p / 100 \<and> p / 100 \<le> 2 ^ 53)"
proof -
  have "(1::real) / 2 ^ 53 \<le> 1 / 100" by simp
  moreover have "1 / 100 \<le> p / 100" using assms by simp
  moreover have "p / 100 \<le> 5" using assms by simp
  moreover have "(5::real) \<le> 2 ^ 53" by simp
  ultimately show ?thesis by linarith
qed

lemma editPercentage_clamped:
  "editPercentage (dims W H) opts (Num v) =
     opts\<lparr>percentage := Num (max 1 (min 500 v)),
       ResizeOptions.width := js_round (js_mul (Num W) (fl (max 1 (min 500 v) / 100))),
       ResizeOptions.height := js_round (js_mul (Num H) (fl (max 1 (min 500 v) / 100)))\<rparr>"
proof -
  consider "v < 1" | "1 \<le> v \<and> v \<le> 500" | "500 < v" by linarith
  then show ?thesis
  proof cases
    case 1
    then have "max 1 (min 500 v) = 1" by simp
    with 1 show ?thesis
      by (simp add: editPercentage_def updatePercentage_def Let_def js_gt_def)
  next
    case 2
    then have "max 1 (min 500 v) = v" by simp
    with 2 show ?thesis
      by (simp add: editPercentage_def updatePercentage_def Let_def js_gt_def)
  next
    case 3
    then have "max 1 (min 500 v) = 500" by simp
    with 3 show ?thesis
      by (simp add: editPercentage_def updatePercentage_def Let_def js_gt_def)
  qed
qed

text \<open>
  Claim C3, as stated: a percentage edit sets the width to \<open>round (W * p / 100)\<close> for
  the clamped value \<open>p\<close>. The handler rounds \<open>p / 100\<close> to a double before the
  product: for an original width of 1350 and 35 percent, \<open>1350 * 35 / 100\<close> is
  \<open>472.5\<close> and rounds to 473, also when the product and then the quotient are
  computed in doubles, and the handler sets the width to 472.
\<close>

theorem rounded_percentage_counterexample:
  "ResizeOptions.width (editPercentage (dims 1350 1000) (sample_options True) (Num 35)) = Num 472
   \<and> round (1350 * 35 / 100 :: real) = 473
   \<and> js_round (js_div (js_mul (Num 1350) (Num 35)) (Num 100)) = Num 473"
  by (simp add: editPercentage_def updatePercentage_def js_gt_def fl_eval round_def)

text \<open>
  Claim C3, amended. A percentage edit with a finite value \<open>v\<close> on an original of \<open>W\<close>
  by \<open>H\<close> clamps \<open>v\<close> into the range from 1 to 500, giving \<open>p\<close> (an infinite value
  is clamped to 500 or to 1), and sets the width to \<^verbatim>\<open>Math.round(W * (p / 100))\<close> and the
  height to \<^verbatim>\<open>Math.round(H * (p / 100))\<close>, the quotient and the product each rounded to
  a double; for original sizes that are integers up to \<open>2 ^ 53\<close> these are integers
  within \<open>1 / 2 + x / 2 ^ 51\<close> of \<open>x = W * p / 100\<close> and \<open>x = H * p / 100\<close>. The
  resulting width, height and percentage do not depend on the aspect-ratio lock. For an
  original of 800 by 600, the percentage 25 gives 200 by 150.
\<close>

theorem updatePercentage_clamps_and_scales:
  "editPercentage (dims W H) opts (Num v) =
     opts\<lparr>percentage := Num (max 1 (min 500 v)),
       ResizeOptions.width :=
         js_round (js_mul (Num W) (js_div (Num (max 1 (min 500 v))) (Num 100))),
       ResizeOptions.height :=
         js_round (js_mul (Num H) (js_div (Num (max 1 (min 500 v))) (Num 100)))\<rparr>
   \<and> 1 \<le> max 1 (min 500 v) \<and> max 1 (min 500 v) \<le> 500
   \<and> (nW \<le> 2 ^ 53 \<and> nH \<le> 2 ^ 53 \<longrightarrow>
        (\<exists>w h. ResizeOptions.width (editPercentage (dims (real nW) (real nH)) opts (Num v))
                  = Num (of_int w)
           \<and> ResizeOptions.height (editPercentage (dims (real nW) (real nH)) opts (Num v))
                  = Num (of_int h)
           \<and> \<bar>of_int w - real nW * max 1 (min 500 v) / 100\<bar>
                \<le> 1 / 2 + (real nW * max 1 (min 500 v) / 100) / 2 ^ 51
           \<and> \<bar>of_int h - real nH * max 1 (min 500 v) / 100\<bar>
                \<le> 1 / 2 + (real nH * max 1 (min 500 v) / 100) / 2 ^ 51))
   \<and> percentage (editPercentage originalDims opts PosInf) = Num 500
   \<and> percentage (editPercentage originalDims opts NegInf) = Num 1
   \<and> ResizeOptions.width (editPercentage originalDims (opts\<lparr>maintainAspectRatio := lock\<rparr>) val) =
       ResizeOptions.width (editPercentage originalDims opts val)
   \<and> ResizeOptions.height (editPercentage originalDims (opts\<lparr>maintainAspectRatio := lock\<rparr>) val) =
       ResizeOptions.height (editPercentage originalDims opts val)
   \<and> percentage (editPercentage originalDims (opts\<lparr>maintainAspectRatio := lock\<rparr>) val) =
       percentage (editPercentage originalDims opts val)
   \<and> ResizeOptions.width (editPercentage (dims 800 600) opts (Num 25)) = Num 200
   \<and> ResizeOptions.height (editPercentage (dims 800 600) opts (Num 25)) = Num 150"
proof -
  define p where "p = max 1 (min 500 v)"
  have b: "1 \<le> p" "p \<le> 500" by (simp_all add: p_def)
  have e: "editPercentage (dims W H) opts (Num v) =
     opts\<lparr>percentage := Num p,
       ResizeOptions.width := js_round (js_mul (Num W) (js_div (Num p) (Num 100))),
       ResizeOptions.height := js_round (js_mul (Num H) (js_div (Num p) (Num 100)))\<rparr>"
    unfolding p_def by (simp add: editPercentage_clamped)
  have a: "nW \<le> 2 ^ 53 \<and> nH \<le> 2 ^ 53 \<longrightarrow>
        (\<exists>w h. ResizeOptions.width (editPercentage (dims (real nW) (real nH)) opts (Num v))
                  = Num (of_int w)
           \<and> ResizeOptions.height (editPercentage (dims (real nW) (real nH)) opts (Num v))
                  = Num (of_int h)
           \<and> \<bar>of_int w - real nW * p / 100\<bar> \<le> 1 / 2 + (real nW * p / 100) / 2 ^ 51
           \<and> \<bar>of_int h - real nH * p / 100\<bar> \<le> 1 / 2 + (real nH * p / 100) / 2 ^ 51)"
  proof
    assume n: "nW \<le> 2 ^ 53 \<and> nH \<le> 2 ^ 53"
    from n b obtain w where w: "js_round (js_mul (Num (real nW)) (fl (p / 100))) = Num (of_int w)"
      "\<bar>of_int w - real nW * (p / 100)\<bar> \<le> 1 / 2 + real nW * (p / 100) / 2 ^ 51"
      using round_mul_fl_accuracy [OF nat_range percent_range refl, of nW p] by auto
    from n b obtain h where h: "js_round (js_mul (Num (real nH)) (fl (p / 100))) = Num (of_int h)"
      "\<bar>of_int h - real nH * (p / 100)\<bar> \<le> 1 / 2 + real nH * (p / 100) / 2 ^ 51"
      using round_mul_fl_accuracy [OF nat_range percent_range refl, of nH p] by auto
    have "ResizeOptions.width (editPercentage (dims (real nW) (real nH)) opts (Num v)) = Num (of_int w)"
      "ResizeOptions.height (editPercentage (dims (real nW) (real nH)) opts (Num v)) = Num (of_int h)"
      using w(1) h(1) by (simp_all add: editPercentage_clamped flip: p_def)
    with w(2) h(2) show "\<exists>w h. ResizeOptions.width (editPercentage (dims (real nW) (real nH)) opts (Num v))
                  = Num (of_int w)
           \<and> ResizeOptions.height (editPercentage (dims (real nW) (real nH)) opts (Num v))
                  = Num (of_int h)
           \<and> \<bar>of_int w - real nW * p / 100\<bar> \<le> 1 / 2 + (real nW * p / 100) / 2 ^ 51
           \<and> \<bar>of_int h - real nH * p / 100\<bar> \<le> 1 / 2 + (real nH * p / 100) / 2 ^ 51"
      by auto
  qed
  have i: "percentage (editPercentage originalDims opts PosInf) = Num 500"
    "percentage (editPercentage originalDims opts NegInf) = Num 1"
    by (simp_all add: editPercentage_def updatePercentage_def Let_def js_gt_def)
  have l: "ResizeOptions.width (editPercentage originalDims (opts\<lparr>maintainAspectRatio := lock\<rparr>) val) =
       ResizeOptions.width (editPercentage originalDims opts val)"
    "ResizeOptions.height (editPercentage originalDims (opts\<lparr>maintainAspectRatio := lock\<rparr>) val) =
       ResizeOptions.height (editPercentage originalDims opts val)"
    "percentage (editPercentage originalDims (opts\<lparr>maintainAspectRatio := lock\<rparr>) val) =
       percentage (editPercentage originalDims opts val)"
    by (simp_all add: editPercentage_def updatePercentage_def Let_def)
  have s: "ResizeOptions.width (editPercentage (dims 800 600) opts (Num 25)) = Num 200"
    "ResizeOptions.height (editPercentage (dims 800 600) opts (Num 25)) = Num 150"
    by (simp_all add: editPercentage_def updatePercentage_def Let_def js_gt_def fl_eval)
  from e b a i l s show ?thesis
    unfolding p_def by blast
qed

theorem updatePercentage_clamps_and_scales_witness:
  "(1350::nat) \<le> 2 ^ 53 \<and> (1000::nat) \<le> 2 ^ 53
   \<and> (\<exists>w h. ResizeOptions.width
          (editPercentage (dims (real 1350) (real 1000)) (sample_options True) (Num 35))
            = Num (of_int w)
        \<and> ResizeOptions.height
          (editPercentage (dims (real 1350) (real 1000)) (sample_options True) (Num 35))
            = Num (of_int h)
        \<and> \<bar>of_int w - real 1350 * max 1 (min 500 35) / 100\<bar>
             \<le> 1 / 2 + (real 1350 * max 1 (min 500 35) / 100) / 2 ^ 51
        \<and> \<bar>of_int h - real 1000 * max 1 (min 500 35) / 100\<bar>
             \<le> 1 / 2 + (real 1000 * max 1 (min 500 35) / 100) / 2 ^ 51)
   \<and> ResizeOptions.width (editPercentage (dims 1350 1000) (sample_options True) (Num 35)) = Num 472
   \<and> ResizeOptions.height (editPercentage (dims 1350 1000) (sample_options True) (Num 35)) = Num 350
   \<and> percentage (editPercentage (dims 1350 1000) (sample_options True) (Num 700)) = Num 500"
proof -
  note t = updatePercentage_clamps_and_scales [where W = 1350 and H = 1000
      and opts = "sample_options True" and v = 35 and nW = 1350 and nH = 1000]
  have hyp: "(1350::nat) \<le> 2 ^ 53 \<and> (1000::nat) \<le> 2 ^ 53" by simp
  have vals: "ResizeOptions.width
        (editPercentage (dims 1350 1000) (sample_options True) (Num 35)) = Num 472"
    "ResizeOptions.height
        (editPercentage (dims 1350 1000) (sample_options True) (Num 35)) = Num 350"
    "percentage (editPercentage (dims 1350 1000) (sample_options True) (Num 700)) = Num 500"
    by (simp_all add: editPercentage_def updatePercentage_def js_gt_def fl_eval)
  from t hyp vals show ?thesis by blast
qed

text \<open>
  Claim C4, as stated: with the lock on and an original of \<open>W\<close> by \<open>H\<close>, both positive,
  editing the width to \<open>W' > 0\<close> gives a height \<open>h'\<close> with
  \<open>\<bar>h' / W' - H / W\<bar> \<le> 1 / min W H\<close>. This fails for an original of 1000 by 1500 and
  the width 1: the height is \<open>round 1.5 = 2\<close>, and \<open>\<bar>2 / 1 - 1500 / 1000\<bar> = 1 / 2\<close>
  exceeds \<open>1 / 1000\<close>.
\<close>

theorem aspect_ratio_tolerance_counterexample:
  "ResizeOptions.width (editDimensions (dims 1000 1500) (sample_options True) key_width (Num 1)) = Num 1
   \<and> ResizeOptions.height (editDimensions (dims 1000 1500) (sample_options True) key_width (Num 1))
       = Num 2
   \<and> \<not> \<bar>(2::real) / 1 - 1500 / 1000\<bar> \<le> 1 / min 1000 1500"
  by (simp add: editDimensions_def updateDimensions_def js_gt_def fl_eval)

text \<open>
  Claim C4, amended: for an original of \<open>W\<close> by \<open>H\<close> and a new width \<open>W'\<close>, positive
  integers up to \<open>2 ^ 53\<close>, with the lock on, the height \<open>h'\<close> satisfies
  \<open>\<bar>h' / W' - H / W\<bar> \<le> 1 / (2 * W') + (H / W) / 2 ^ 51\<close>: the error of at most one
  half from \<^verbatim>\<open>Math.round\<close> is divided by the new width, and the two roundings to a
  double add a relative error of at most \<open>1 / 2 ^ 51\<close>.
\<close>

theorem aspect_ratio_tolerance:
  assumes W: "1 \<le> W" "W \<le> 2 ^ 53" and H: "1 \<le> H" "H \<le> 2 ^ 53"
    and W': "1 \<le> W'" "W' \<le> 2 ^ 53" and lock: "maintainAspectRatio opts"
  shows "\<exists>h'. ResizeOptions.width
           (editDimensions (dims (real W) (real H)) opts key_width (Num (real W'))) = Num (real W')
      \<and> ResizeOptions.height
           (editDimensions (dims (real W) (real H)) opts key_width (Num (real W'))) = Num (of_int h')
      \<and> \<bar>of_int h' / real W' - real H / real W\<bar> \<le> 1 / (2 * real W') + (real H / real W) / 2 ^ 51"
proof -
  have e: "editDimensions (dims (real W) (real H)) opts key_width (Num (real W')) =
     opts\<lparr>ResizeOptions.width := Num (real W'),
       ResizeOptions.height := js_round (js_mul (Num (real W')) (fl (real H / real W))),
       percentage := js_or (js_round (js_mul (fl (real W' / real W)) (Num 100))) (Num 0)\<rparr>"
    using W lock by (intro editDimensions_width_locked) simp_all
  from round_mul_fl_accuracy [OF nat_range [OF W'(2)] ratio_range [OF W H(2)] refl]
  obtain h where h: "js_round (js_mul (Num (real W')) (fl (real H / real W))) = Num (of_int h)"
    "\<bar>of_int h - real W' * (real H / real W)\<bar> \<le> 1 / 2 + real W' * (real H / real W) / 2 ^ 51"
    by blast
  have wpos: "0 < real W'" using W'(1) by simp
  have "of_int h / real W' - real H / real W = (of_int h - real W' * (real H / real W)) / real W'"
    using wpos by (simp add: field_simps)
  then have "\<bar>of_int h / real W' - real H / real W\<bar>
      = \<bar>of_int h - real W' * (real H / real W)\<bar> / real W'"
    using wpos by simp
  also have "\<dots> \<le> (1 / 2 + real W' * (real H / real W) / 2 ^ 51) / real W'"
    by (rule divide_right_mono [OF h(2)]) (use wpos in simp)
  also have "\<dots> = 1 / (2 * real W') + (real H / real W) / 2 ^ 51"
    using wpos by (simp add: field_simps)
  finally have "\<bar>of_int h / real W' - real H / real W\<bar>
      \<le> 1 / (2 * real W') + (real H / real W) / 2 ^ 51" .
  with e h(1) show ?thesis by simp
qed

theorem aspect_ratio_tolerance_witness:
  "(1::nat) \<le> 1000 \<and> (1000::nat) \<le> 2 ^ 53 \<and> (1::nat) \<le> 1500 \<and> (1500::nat) \<le> 2 ^ 53
   \<and> (1::nat) \<le> 1 \<and> (1::nat) \<le> 2 ^ 53 \<and> maintainAspectRatio (sample_options True)
   \<and> (\<exists>h'. ResizeOptions.width
          (editDimensions (dims (real 1000) (real 1500)) (sample_options True) key_width
            (Num (real 1))) = Num (real 1)
      \<and> ResizeOptions.height
          (editDimensions (dims (real 1000) (real 1500)) (sample_options True) key_width
            (Num (real 1))) = Num (of_int h')
      \<and> \<bar>of_int h' / real 1 - real 1500 / real 1000\<bar>
           \<le> 1 / (2 * real 1) + (real 1500 / real 1000) / 2 ^ 51)"
proof -
  have hyp: "(1::nat) \<le> 1000" "(1000::nat) \<le> 2 ^ 53" "(1::nat) \<le> 1500" "(1500::nat) \<le> 2 ^ 53"
    "(1::nat) \<le> 1" "(1::nat) \<le> 2 ^ 53" "maintainAspectRatio (sample_options True)"
    by simp_all
  from aspect_ratio_tolerance [OF hyp] hyp show ?thesis by blast
qed

text \<open>
  Claim C10. For two options records that differ only in \<open>mode\<close>, a width or height
  edit and a percentage edit give the same width, height and percentage: the mode has
  no influence on the resolved dimensions.
\<close>

theorem mode_has_no_influence:
  "ResizeOptions.width (editDimensions originalDims (opts\<lparr>mode := m\<rparr>) key val) =
     ResizeOptions.width (editDimensions originalDims opts key val)
   \<and> ResizeOptions.height (editDimensions originalDims (opts\<lparr>mode := m\<rparr>) key val) =
     ResizeOptions.height (editDimensions originalDims opts key val)
   \<and> percentage (editDimensions originalDims (opts\<lparr>mode := m\<rparr>) key val) =
     percentage (editDimensions originalDims opts key val)
   \<and> ResizeOptions.width (editPercentage originalDims (opts\<lparr>mode := m\<rparr>) val) =
     ResizeOptions.width (editPercentage originalDims opts val)
   \<and> ResizeOptions.height (editPercentage originalDims (opts\<lparr>mode := m\<rparr>) val) =
     ResizeOptions.height (editPercentage originalDims opts val)
   \<and> percentage (editPercentage originalDims (opts\<lparr>mode := m\<rparr>) val) =
     percentage (editPercentage originalDims opts val)"
  by (cases key) (simp_all add: editDimensions_def updateDimensions_def editPercentage_def
      updatePercentage_def Let_def)

section \<open>The savings estimate\<close>

lemma lit_three_quarters: "js_lit (75 / 100) = Num (3 / 4)"
  by (simp add: fl_eval)

lemma lit_energy: "js_lit (35 / 100) = Num (3152519739159347 / 9007199254740992)"
  by (simp add: fl_eval)

lemma mebi: "js_mul (Num 1024) (Num 1024) = Num 1048576"
  by (simp add: fl_eval)

lemma fl_of_int: "\<bar>k\<bar> < 2 ^ 53 \<Longrightarrow> fl (of_int k) = Num (of_int k)"
  using fl_exact [of "of_int k" k 0] by simp

lemma fl_quarters: "\<bar>k\<bar> < 2 ^ 53 \<Longrightarrow> fl (of_int k / 4) = Num (of_int k / 4)"
  using fl_exact [of "of_int k / 4" k "- 2"] by (simp add: power_int_minus_divide)

lemma fl_mebi: "\<bar>k\<bar> < 2 ^ 53 \<Longrightarrow> fl (of_int k / 1048576) = Num (of_int k / 1048576)"
  using fl_exact [of "of_int k / 1048576" k "- 20"] by (simp add: power_int_minus_divide)

lemma originalSize_Some: "originalSize (Some \<lparr>file_size = n\<rparr>) = Num (of_nat n)"
  by (simp add: originalSize_def js_or_def)

lemma newSizeEstimate_payload:
  assumes "payload \<noteq> []" and "length payload \<le> 2 ^ 51"
  shows "newSizeEstimate file (Some payload) =
     Num (of_int (round ((real (length payload) - 22) * (75 / 100))))"
proof -
  define k where "k = int (length payload) - 22"
  have kr: "real (length payload) - 22 = of_int k" by (simp add: k_def)
  from assms(2) have "int (length payload) \<le> 2 ^ 51"
    by (metis of_nat_le_iff of_nat_numeral of_nat_power)
  then have kb: "- 22 \<le> k" "k \<le> 2 ^ 51" by (simp_all add: k_def)
  then have k1: "\<bar>k\<bar> < 2 ^ 53" by simp
  from kb have k3: "\<bar>3 * k\<bar> < 2 ^ 53" by simp
  have s: "js_sub (Num (real (length payload))) (Num 22) = Num (of_int k)"
    by (simp only: js_sub.simps kr fl_of_int [OF k1])
  have "of_int k * (3 / 4) = (of_int (3 * k) / 4 :: real)" by simp
  then have m: "js_mul (Num (of_int k)) (Num (3 / 4)) = Num (of_int k * (3 / 4))"
    using fl_quarters [OF k3] by (simp only: js_mul.simps)
  have "newSizeEstimate file (Some payload) =
      js_round (js_mul (js_sub (Num (real (length payload))) (Num 22)) (js_lit (75 / 100)))"
    by (simp only: newSizeEstimate_def option.simps assms(1) simp_thms if_True)
  also have "\<dots> = js_round (Num (of_int k * (3 / 4)))"
    by (simp only: s lit_three_quarters m)
  also have "\<dots> = Num (of_int (round ((real (length payload) - 22) * (75 / 100))))"
    by (simp add: round_def kr)
  finally show ?thesis .
qed

text \<open>
  Claim C7. For a file of \<open>n\<close> bytes and an encoded payload (a data URL, hence a
  nonempty string), with \<open>n\<close> up to \<open>2 ^ 52\<close> and a payload of up to \<open>2 ^ 51\<close>
  characters, the estimated new size is \<open>round ((length - 22) * 0.75)\<close>, the saved
  bytes are \<open>max 0 (n - estimate)\<close>, which is never negative, and the saved CO2 is
  \<^verbatim>\<open>(savedBytes / (1024 * 1024)) * 0.35\<close>: the quotient, which is exact, times the
  constant coefficient, the double nearest to 0.35, the product rounded to a double and
  so within a relative error of \<open>1 / 2 ^ 51\<close> of \<open>saved / (1024 * 1024) * 0.35\<close>.
\<close>

theorem savings_estimate:
  assumes "payload \<noteq> []" and "length payload \<le> 2 ^ 51" and "n \<le> 2 ^ 52"
  shows "newSizeEstimate (Some \<lparr>file_size = n\<rparr>) (Some payload) =
        Num (of_int (round ((real (length payload) - 22) * (75 / 100))))
    \<and> savedBytes (Some \<lparr>file_size = n\<rparr>) (Some payload) =
        Num (max 0 (real n - of_int (round ((real (length payload) - 22) * (75 / 100)))))
    \<and> 0 \<le> max 0 (real n - of_int (round ((real (length payload) - 22) * (75 / 100))))
    \<and> savedCO2 (Some \<lparr>file_size = n\<rparr>) (Some payload) =
        js_mul (Num (max 0 (real n - of_int (round ((real (length payload) - 22) * (75 / 100))))
                      / (1024 * 1024)))
          (js_lit (35 / 100))
    \<and> js_lit (35 / 100) = Num (3152519739159347 / 9007199254740992)
    \<and> (\<exists>g. savedCO2 (Some \<lparr>file_size = n\<rparr>) (Some payload) = Num g
          \<and> \<bar>g - max 0 (real n - of_int (round ((real (length payload) - 22) * (75 / 100))))
                   / (1024 * 1024) * (35 / 100)\<bar>
             \<le> max 0 (real n - of_int (round ((real (length payload) - 22) * (75 / 100))))
                   / (1024 * 1024) * (35 / 100) / 2 ^ 51)"
proof -
  define est where "est = round ((real (length payload) - 22) * (75 / 100))"
  define sv where "sv = max 0 (int n - est)"
  have e: "newSizeEstimate (Some \<lparr>file_size = n\<rparr>) (Some payload) = Num (of_int est)"
    unfolding est_def by (rule newSizeEstimate_payload [OF assms(1,2)])
  from assms(2) have lb: "real (length payload) \<le> 2 ^ 51"
    by (metis of_nat_le_iff of_nat_numeral of_nat_power)
  have "(real (length payload) - 22) * (75 / 100) \<le> 2 ^ 51" using lb by simp
  then have "est \<le> round ((2::real) ^ 51)" unfolding est_def by (rule round_mono)
  then have eu: "est \<le> 2 ^ 51" by simp
  have "- 17 \<le> (real (length payload) - 22) * (75 / 100)" by simp
  then have "round (- 17 :: real) \<le> est" unfolding est_def by (rule round_mono)
  then have el: "- 17 \<le> est" by simp
  from assms(3) have nb: "int n \<le> 2 ^ 52"
    by (metis of_nat_le_iff of_nat_numeral of_nat_power)
  from nb el eu have d: "\<bar>int n - est\<bar> < 2 ^ 53" by simp
  have "js_sub (Num (real n)) (Num (of_int est)) = fl (of_int (int n - est))"
    by simp
  then have sub: "js_sub (Num (real n)) (Num (of_int est)) = Num (of_int (int n - est))"
    by (simp only: fl_of_int [OF d])
  have svr: "real_of_int sv = max 0 (real n - of_int est)"
    by (simp add: sv_def max_def)
  have b: "savedBytes (Some \<lparr>file_size = n\<rparr>) (Some payload) = Num (of_int sv)"
    by (simp only: savedBytes_def e originalSize_Some sub) (simp add: sv_def max_def)
  have svb: "0 \<le> sv" "\<bar>sv\<bar> < 2 ^ 53" using d by (simp_all add: sv_def)
  have q: "js_div (Num (of_int sv)) (Num 1048576) = Num (of_int sv / 1048576)"
    using fl_mebi [OF svb(2)] by simp
  have c: "savedCO2 (Some \<lparr>file_size = n\<rparr>) (Some payload) =
      js_mul (Num (of_int sv / (1024 * 1024))) (js_lit (35 / 100))"
    by (simp only: savedCO2_def b mebi q) simp
  have vr: "of_int sv / (1024 * 1024) = (0::real)
      \<or> (1 / 2 ^ 53 \<le> real_of_int sv / (1024 * 1024) \<and> real_of_int sv / (1024 * 1024) \<le> 2 ^ 53)"
  proof (cases "sv = 0")
    case True
    then show ?thesis by simp
  next
    case False
    with svb(1) have "1 \<le> sv" by simp
    then have "1 \<le> real_of_int sv" by simp
    then have lo: "1 / 2 ^ 53 \<le> real_of_int sv / (1024 * 1024)" by simp
    from svb(2) have "sv \<le> 2 ^ 53" by simp
    then have "real_of_int sv \<le> 2 ^ 53"
      by (metis of_int_le_iff of_int_numeral of_int_power)
    then have "real_of_int sv / (1024 * 1024) \<le> 2 ^ 53" by simp
    with lo show ?thesis by simp
  qed
  have tr: "(35 / 100 :: real) = 0 \<or> (1 / 2 ^ 53 \<le> (35 / 100 :: real) \<and> (35 / 100 :: real) \<le> 2 ^ 53)"
    by simp
  from mul_fl_accuracy [OF vr tr] obtain r g where
    g: "fl (35 / 100) = Num r" "js_mul (Num (of_int sv / (1024 * 1024))) (Num r) = Num g"
      "\<bar>g - of_int sv / (1024 * 1024) * (35 / 100)\<bar> \<le> of_int sv / (1024 * 1024) * (35 / 100) / 2 ^ 51"
    by blast
  have cg: "savedCO2 (Some \<lparr>file_size = n\<rparr>) (Some payload) = Num g"
    by (simp only: c js_lit_def g(1) g(2))
  have "0 \<le> real_of_int sv" using svb(1) by simp
  with e b c cg g(3) lit_energy show ?thesis
    unfolding svr est_def by blast
qed

theorem savings_estimate_witness:
  "''data:image/jpeg;base64,AAAA'' \<noteq> [] \<and> length ''data:image/jpeg;base64,AAAA'' \<le> 2 ^ 51
   \<and> (10::nat) \<le> 2 ^ 52
   \<and> newSizeEstimate (Some \<lparr>file_size = 10\<rparr>) (Some ''data:image/jpeg;base64,AAAA'') =
        Num (of_int (round ((real (length ''data:image/jpeg;base64,AAAA'') - 22) * (75 / 100))))
   \<and> newSizeEstimate (Some \<lparr>file_size = 10\<rparr>) (Some ''data:image/jpeg;base64,AAAA'') = Num 4
   \<and> savedBytes (Some \<lparr>file_size = 10\<rparr>) (Some ''data:image/jpeg;base64,AAAA'') = Num 6
   \<and> savedCO2 (Some \<lparr>file_size = 10\<rparr>) (Some ''data:image/jpeg;base64,AAAA'') =
       Num (1182194902184755 / 590295810358705651712)"
proof -
  have hyp: "''data:image/jpeg;base64,AAAA'' \<noteq> []"
    "length ''data:image/jpeg;base64,AAAA'' \<le> 2 ^ 51" "(10::nat) \<le> 2 ^ 52"
    by simp_all
  have vals: "newSizeEstimate (Some \<lparr>file_size = 10\<rparr>) (Some ''data:image/jpeg;base64,AAAA'') = Num 4"
    "savedBytes (Some \<lparr>file_size = 10\<rparr>) (Some ''data:image/jpeg;base64,AAAA'') = Num 6"
    "savedCO2 (Some \<lparr>file_size = 10\<rparr>) (Some ''data:image/jpeg;base64,AAAA'') =
       Num (1182194902184755 / 590295810358705651712)"
    by (simp_all add: newSizeEstimate_def savedBytes_def savedCO2_def originalSize_def js_or_def
        fl_eval)
  from savings_estimate [OF hyp] hyp vals show ?thesis by blast
qed

text \<open>
  Claim C8. The percent of the original size is \<open>round (estimate / original * 100)\<close>,
  and with an original size of 0 it is 0 or absent, never a non-finite value. The code
  has no such case: with an empty file, or no file, and no payload yet it computes
  \<open>0 / 0\<close> and the result is NaN; with no file and a payload left from before it is
  \<open>Infinity\<close>.
\<close>

theorem sizePercent_zero_original:
  "sizePercent (Some \<lparr>file_size = 0\<rparr>) None = NaN
   \<and> sizePercent None None = NaN
   \<and> sizePercent None (Some ''data:image/jpeg;base64,AAAA'') = PosInf
   \<and> \<not> js_finite (sizePercent (Some \<lparr>file_size = 0\<rparr>) None)"
  by (simp add: sizePercent_def newSizeEstimate_def originalSize_def js_or_def fl_eval)

section \<open>Rasterization\<close>

text \<open>
  Claim C9. When the source image fails to decode the promise is rejected (with the
  error event); when the image decodes and no 2d context is obtained it is rejected
  with the error \<^verbatim>\<open>'Could not get canvas context'\<close>; otherwise it resolves with the
  data URL of the whole canvas. A resolved promise always carries that complete data
  URL, so no partial result is returned.
\<close>

theorem resizeImage_settles:
  "(loadImage env sourceUrl = None \<longrightarrow> resizeImage env sourceUrl opts = Inl ImageErrorEvent)
   \<and> (loadImage env sourceUrl = Some img
        \<and> \<not> getContext env (ResizeOptions.width opts) (ResizeOptions.height opts) \<longrightarrow>
        resizeImage env sourceUrl opts = Inl (Error ''Could not get canvas context''))
   \<and> (loadImage env sourceUrl = Some img
        \<and> getContext env (ResizeOptions.width opts) (ResizeOptions.height opts) \<longrightarrow>
        resizeImage env sourceUrl opts =
          Inr (toDataURL env img (ResizeOptions.width opts) (ResizeOptions.height opts)
                 (format opts) (quality opts)))
   \<and> (\<forall>payload. resizeImage env sourceUrl opts = Inr payload \<longrightarrow>
        (\<exists>img. loadImage env sourceUrl = Some img
           \<and> getContext env (ResizeOptions.width opts) (ResizeOptions.height opts)
           \<and> payload = toDataURL env img (ResizeOptions.width opts) (ResizeOptions.height opts)
                 (format opts) (quality opts)))"
  by (auto simp: resizeImage_def Let_def split: option.splits)

theorem resizeImage_settles_witness:
  "resizeImage (sample_browser True) [] (sized 1000 500) = Inl ImageErrorEvent
   \<and> resizeImage (sample_browser False) ''data:image/png;base64,CCCC'' (sized 1000 500) =
       Inl (Error ''Could not get canvas context'')
   \<and> resizeImage (sample_browser True) ''data:image/png;base64,CCCC'' (sized 1000 500) =
       Inr ''data:image/jpeg;base64,AAAA''"
  using resizeImage_settles [of "sample_browser True" "[]" "sized 1000 500"]
    resizeImage_settles [of "sample_browser False" "''data:image/png;base64,CCCC''"
      "sized 1000 500" "''data:image/png;base64,CCCC''"]
    resizeImage_settles [of "sample_browser True" "''data:image/png;base64,CCCC''"
      "sized 1000 500" "''data:image/png;base64,CCCC''"]
  by simp

section \<open>The live resize effect\<close>

lemma step_preserves_inv: "sched_inv s \<Longrightarrow> sched_inv (step env s e)"
  by (cases e)
    (auto simp: sched_inv_def resizeEffect_def effectCleanup_def Let_def
      split: option.splits prod.splits sum.splits)

lemma exec_preserves_inv: "sched_inv s \<Longrightarrow> sched_inv (exec env s es)"
  by (induction es arbitrary: s) (simp_all add: step_preserves_inv)

lemma SetOptions_inflight: "inflight (step env s (SetOptions opts)) = inflight s"
  by (simp add: resizeEffect_def effectCleanup_def Let_def split: option.splits)

lemma Settle_resolved:
  assumes "i < length (inflight s)" and "inflight s ! i = (src, opts)"
    and "resizeImage env src opts = Inr payload"
  shows "step env s (Settle i) =
     s\<lparr>inflight := take i (inflight s) @ drop (Suc i) (inflight s),
       resizedSrc := Some payload, isResizing := False\<rparr>"
  using assms by simp

lemma Settle_rejected:
  assumes "i < length (inflight s)" and "inflight s ! i = (src, opts)"
    and "resizeImage env src opts = Inl err"
  shows "step env s (Settle i) =
     s\<lparr>inflight := take i (inflight s) @ drop (Suc i) (inflight s), isResizing := False\<rparr>"
  using assms by simp

lemma SetOptions_changed:
  assumes "sched_inv s" and "effectDeps (s\<lparr>options := opts\<rparr>) \<noteq> effectDeps s"
  shows "step env s (SetOptions opts) =
     (if effectGuard (s\<lparr>options := opts\<rparr>)
      then s\<lparr>options := opts, isResizing := True,
             timer := Some (now s + 400, the (previewSrc s), opts), hasCleanup := True\<rparr>
      else s\<lparr>options := opts, timer := None, hasCleanup := False\<rparr>)"
  using assms
  by (auto simp: sched_inv_def resizeEffect_def effectCleanup_def effectGuard_def Let_def
      split: option.splits)

lemma SetOptions_unchanged:
  assumes "effectDeps (s\<lparr>options := opts\<rparr>) = effectDeps s"
  shows "step env s (SetOptions opts) = s\<lparr>options := opts\<rparr>"
  using assms by simp

lemma two_changes_one_run:
  assumes inv: "sched_inv s"
    and src: "previewSrc s = Some src" "src \<noteq> []"
    and c1: "effectDeps (s\<lparr>options := o1\<rparr>) \<noteq> effectDeps s"
    and c2: "effectDeps (s\<lparr>options := o2\<rparr>) \<noteq> effectDeps (s\<lparr>options := o1\<rparr>)"
    and ok: "js_truthy (ResizeOptions.width o2)" "js_truthy (ResizeOptions.height o2)"
    and d: "d1 < 400" "400 \<le> d2"
  shows "exec env s [SetOptions o1, Advance d1, TimerFires, SetOptions o2, Advance d2, TimerFires] =
     s\<lparr>options := o2, isResizing := True, timer := None, hasCleanup := True,
       inflight := inflight s @ [(src, o2)], now := now s + d1 + d2\<rparr>"
proof -
  define s1 where "s1 = step env s (SetOptions o1)"
  define s2 where "s2 = step env s1 (Advance d1)"
  define s3 where "s3 = step env s2 TimerFires"
  define s4 where "s4 = step env s3 (SetOptions o2)"
  have s1: "s1 = (if effectGuard (s\<lparr>options := o1\<rparr>)
      then s\<lparr>options := o1, isResizing := True,
             timer := Some (now s + 400, src, o1), hasCleanup := True\<rparr>
      else s\<lparr>options := o1, timer := None, hasCleanup := False\<rparr>)"
    unfolding s1_def using SetOptions_changed [OF inv c1] src by simp
  have s3: "s3 = s1\<lparr>now := now s + d1\<rparr>"
    unfolding s3_def s2_def using d(1) by (simp add: s1)
  have inv3: "sched_inv s3"
    unfolding s3_def s2_def s1_def by (intro step_preserves_inv inv)
  have deps3: "effectDeps (s3\<lparr>options := o2\<rparr>) \<noteq> effectDeps s3"
    using c2 by (simp add: s3 s1 effectDeps_def)
  have g: "effectGuard (s3\<lparr>options := o2\<rparr>)"
    using src ok by (simp add: s3 s1 effectGuard_def)
  have s4: "s4 = s\<lparr>options := o2, isResizing := True,
       timer := Some (now s + d1 + 400, src, o2), hasCleanup := True, now := now s + d1\<rparr>"
    unfolding s4_def using SetOptions_changed [OF inv3 deps3, of env] g src
    by (simp add: s3 s1)
  have "exec env s [SetOptions o1, Advance d1, TimerFires, SetOptions o2, Advance d2, TimerFires] =
      step env (step env s4 (Advance d2)) TimerFires"
    by (simp add: s4_def s3_def s2_def s1_def)
  also have "\<dots> = s\<lparr>options := o2, isResizing := True, timer := None, hasCleanup := True,
       inflight := inflight s @ [(src, o2)], now := now s + d1 + d2\<rparr>"
    using d(2) by (simp add: s4)
  finally show ?thesis .
qed

text \<open>
  Claim C5, as stated: when a run in flight is superseded by a newer options change, its
  result is discarded once it resolves and never overwrites \<open>resizedSrc\<close> after the
  newer run completed, each run being tagged with a generation counter. The effect has
  no such counter. Here the run for 1000 by 500 is in flight when the options change to
  500 by 250; the newer run resolves first and its payload is displayed; then the older
  run resolves and its payload replaces it, while the options are 500 by 250.
\<close>

theorem stale_result_overwrites_counterexample:
  "resizedSrc (exec (sample_browser True) sample_sched
      [SetOptions (sized 1000 500), Advance 400, TimerFires,
       SetOptions (sized 500 250), Advance 400, TimerFires, Settle 1])
     = Some ''data:image/jpeg;base64,BBBB''
   \<and> resizeImage (sample_browser True) ''data:image/png;base64,CCCC'' (sized 500 250)
     = Inr ''data:image/jpeg;base64,BBBB''
   \<and> options (exec (sample_browser True) sample_sched
      [SetOptions (sized 1000 500), Advance 400, TimerFires,
       SetOptions (sized 500 250), Advance 400, TimerFires, Settle 1, Settle 0])
     = sized 500 250
   \<and> resizedSrc (exec (sample_browser True) sample_sched
      [SetOptions (sized 1000 500), Advance 400, TimerFires,
       SetOptions (sized 500 250), Advance 400, TimerFires, Settle 1, Settle 0])
     = Some ''data:image/jpeg;base64,AAAA''"
  by (simp add: effectDeps_def resizeEffect_def effectCleanup_def resizeImage_def)

text \<open>
  Claim C5, amended: an options change leaves every run in flight as it is (only a timer
  that has not fired is cancelled), and whenever a run in flight resolves, whichever it
  is, its result is written to \<open>resizedSrc\<close>; a run that is rejected leaves
  \<open>resizedSrc\<close> as it was. The displayed result is that of the run that resolved
  last.
\<close>

theorem inflight_result_is_written:
  "inflight (step env s (SetOptions opts')) = inflight s
   \<and> (i < length (inflight s) \<and> inflight s ! i = (src, opts)
        \<and> resizeImage env src opts = Inr payload \<longrightarrow>
        resizedSrc (step env s (Settle i)) = Some payload
        \<and> \<not> isResizing (step env s (Settle i)))
   \<and> (i < length (inflight s) \<and> inflight s ! i = (src, opts)
        \<and> resizeImage env src opts = Inl err \<longrightarrow>
        resizedSrc (step env s (Settle i)) = resizedSrc s
        \<and> \<not> isResizing (step env s (Settle i)))"
proof (intro conjI impI)
  show "inflight (step env s (SetOptions opts')) = inflight s"
    by (rule SetOptions_inflight)
next
  assume a: "i < length (inflight s) \<and> inflight s ! i = (src, opts)
        \<and> resizeImage env src opts = Inr payload"
  then have e: "step env s (Settle i) =
     s\<lparr>inflight := take i (inflight s) @ drop (Suc i) (inflight s),
       resizedSrc := Some payload, isResizing := False\<rparr>"
    using Settle_resolved [of i s src opts env payload] by simp
  show "resizedSrc (step env s (Settle i)) = Some payload" unfolding e by simp
  show "\<not> isResizing (step env s (Settle i))" unfolding e by simp
next
  assume a: "i < length (inflight s) \<and> inflight s ! i = (src, opts)
        \<and> resizeImage env src opts = Inl err"
  then have e: "step env s (Settle i) =
     s\<lparr>inflight := take i (inflight s) @ drop (Suc i) (inflight s), isResizing := False\<rparr>"
    using Settle_rejected [of i s src opts env err] by simp
  show "resizedSrc (step env s (Settle i)) = resizedSrc s" unfolding e by simp
  show "\<not> isResizing (step env s (Settle i))" unfolding e by simp
qed

theorem inflight_result_is_written_witness:
  "inflight (step (sample_browser True) busy_sched (SetOptions (sized 300 150))) = inflight busy_sched
   \<and> resizedSrc (step (sample_browser True) busy_sched (Settle 0)) = Some ''data:image/jpeg;base64,AAAA''
   \<and> options (step (sample_browser True) busy_sched (Settle 0)) = sized 500 250
   \<and> resizedSrc (step (sample_browser False) busy_sched (Settle 0)) =
       Some ''data:image/jpeg;base64,DDDD''"
  using inflight_result_is_written [of "sample_browser True" busy_sched "sized 300 150" 0
      "''data:image/png;base64,CCCC''" "sized 1000 500" "''data:image/jpeg;base64,AAAA''"]
    inflight_result_is_written [of "sample_browser False" busy_sched "sized 300 150" 0
      "''data:image/png;base64,CCCC''" "sized 1000 500" _ "Error ''Could not get canvas context''"]
  by (simp add: resizeImage_def)

text \<open>
  Claim C6, as stated: every options change cancels the pending run and schedules a new
  one 400 ms later, so two changes within the window give exactly one run, with the
  final options. Here the second change, 100 ms after the first, sets the width to 0:
  the pending timer is cancelled and the effect returns early, so no run ever starts.
  A change of \<open>maintainAspectRatio\<close> alone does not run the effect: the timer of the
  first change stays due at 400.
\<close>

theorem debounce_counterexample:
  "inflight (exec (sample_browser True) sample_sched
      [SetOptions (sized 1000 500), Advance 100, SetOptions (sized 0 500), Advance 400, TimerFires])
     = []
   \<and> timer (exec (sample_browser True) sample_sched
      [SetOptions (sized 1000 500), Advance 100, SetOptions (sized 0 500), Advance 400, TimerFires])
     = None
   \<and> timer (exec (sample_browser True) sample_sched
      [SetOptions (sized 1000 500), Advance 100,
       SetOptions ((sized 1000 500)\<lparr>maintainAspectRatio := False\<rparr>)])
      = Some (400, ''data:image/png;base64,CCCC'', sized 1000 500)"
  by (simp add: effectDeps_def resizeEffect_def effectCleanup_def resizeImage_def)

text \<open>
  Claim C6, amended: a change that leaves the dependencies of the effect (the source,
  width, height, quality and format) as they are neither cancels nor schedules; a
  change of a dependency cancels the pending timer, and schedules a new one 400 ms
  later exactly when a source is loaded and the new width and height are truthy. Two
  changes of a dependency less than 400 ms apart, the second with truthy width and
  height, start exactly one run, with the final options, once 400 ms have passed.
\<close>

theorem debounce_coalesces:
  assumes "sched_inv s"
  shows "(effectDeps (s\<lparr>options := opts\<rparr>) = effectDeps s \<longrightarrow>
          timer (step env s (SetOptions opts)) = timer s)
   \<and> (effectDeps (s\<lparr>options := opts\<rparr>) \<noteq> effectDeps s \<and> \<not> effectGuard (s\<lparr>options := opts\<rparr>) \<longrightarrow>
          timer (step env s (SetOptions opts)) = None)
   \<and> (effectDeps (s\<lparr>options := opts\<rparr>) \<noteq> effectDeps s \<and> effectGuard (s\<lparr>options := opts\<rparr>)
        \<and> previewSrc s = Some src \<longrightarrow>
          timer (step env s (SetOptions opts)) = Some (now s + 400, src, opts))
   \<and> (previewSrc s = Some src \<and> src \<noteq> []
        \<and> effectDeps (s\<lparr>options := o1\<rparr>) \<noteq> effectDeps s
        \<and> effectDeps (s\<lparr>options := o2\<rparr>) \<noteq> effectDeps (s\<lparr>options := o1\<rparr>)
        \<and> js_truthy (ResizeOptions.width o2) \<and> js_truthy (ResizeOptions.height o2)
        \<and> d1 < 400 \<and> 400 \<le> d2 \<longrightarrow>
          inflight (exec env s
            [SetOptions o1, Advance d1, TimerFires, SetOptions o2, Advance d2, TimerFires])
          = inflight s @ [(src, o2)]
          \<and> timer (exec env s
            [SetOptions o1, Advance d1, TimerFires, SetOptions o2, Advance d2, TimerFires]) = None)"
proof (intro conjI impI)
  assume "effectDeps (s\<lparr>options := opts\<rparr>) = effectDeps s"
  then show "timer (step env s (SetOptions opts)) = timer s"
    by (simp add: SetOptions_unchanged)
next
  assume "effectDeps (s\<lparr>options := opts\<rparr>) \<noteq> effectDeps s \<and> \<not> effectGuard (s\<lparr>options := opts\<rparr>)"
  then show "timer (step env s (SetOptions opts)) = None"
    using SetOptions_changed [OF assms, of opts env] by simp
next
  assume "effectDeps (s\<lparr>options := opts\<rparr>) \<noteq> effectDeps s \<and> effectGuard (s\<lparr>options := opts\<rparr>)
        \<and> previewSrc s = Some src"
  then show "timer (step env s (SetOptions opts)) = Some (now s + 400, src, opts)"
    using SetOptions_changed [OF assms, of opts env] by simp
next
  assume a: "previewSrc s = Some src \<and> src \<noteq> []
        \<and> effectDeps (s\<lparr>options := o1\<rparr>) \<noteq> effectDeps s
        \<and> effectDeps (s\<lparr>options := o2\<rparr>) \<noteq> effectDeps (s\<lparr>options := o1\<rparr>)
        \<and> js_truthy (ResizeOptions.width o2) \<and> js_truthy (ResizeOptions.height o2)
        \<and> d1 < 400 \<and> 400 \<le> d2"
  then have e: "exec env s
       [SetOptions o1, Advance d1, TimerFires, SetOptions o2, Advance d2, TimerFires] =
     s\<lparr>options := o2, isResizing := True, timer := None, hasCleanup := True,
       inflight := inflight s @ [(src, o2)], now := now s + d1 + d2\<rparr>"
    by (intro two_changes_one_run assms) simp_all
  show "inflight (exec env s
            [SetOptions o1, Advance d1, TimerFires, SetOptions o2, Advance d2, TimerFires])
          = inflight s @ [(src, o2)]"
    unfolding e by simp
  show "timer (exec env s
            [SetOptions o1, Advance d1, TimerFires, SetOptions o2, Advance d2, TimerFires]) = None"
    unfolding e by simp
qed

theorem debounce_coalesces_witness:
  "sched_inv sample_sched
   \<and> timer (step (sample_browser True) sample_sched (SetOptions (sample_options False))) = None
   \<and> timer (step (sample_browser True) sample_sched (SetOptions (sized 0 500))) = None
   \<and> timer (step (sample_browser True) sample_sched (SetOptions (sized 1000 500)))
       = Some (400, ''data:image/png;base64,CCCC'', sized 1000 500)
   \<and> inflight (exec (sample_browser True) sample_sched
        [SetOptions (sized 1000 500), Advance 100, TimerFires,
         SetOptions (sized 500 250), Advance 400, TimerFires])
       = [(''data:image/png;base64,CCCC'', sized 500 250)]"
  using debounce_coalesces [of sample_sched "sample_options False" "sample_browser True"
      "''data:image/png;base64,CCCC''" "sized 1000 500" "sized 500 250" 100 400]
    debounce_coalesces [of sample_sched "sized 0 500" "sample_browser True"
      "''data:image/png;base64,CCCC''" "sized 1000 500" "sized 500 250" 100 400]
    debounce_coalesces [of sample_sched "sized 1000 500" "sample_browser True"
      "''data:image/png;base64,CCCC''" "sized 1000 500" "sized 500 250" 100 400]
  by (simp add: sched_inv_def effectDeps_def effectGuard_def resizeEffect_def effectCleanup_def)

end
